theory Spec2Isabelle
  imports Main "HOL-Library.Multiset"
begin

section \<open>Data model\<close>

text \<open>
  Times are milliseconds since the epoch, as \<^verbatim>\<open>Date.getTime()\<close> gives them; the epoch
  \<^verbatim>\<open>new Date(0)\<close> is \<open>0\<close>. Strings are ASCII strings. A nullable string is a
  \<open>string option\<close>, \<open>None\<close> standing for \<^verbatim>\<open>null\<close>.
\<close>

type_synonym time = int

text \<open>The error kinds of the specification. The routers throw zod input errors
  (\<open>ValidationError\<close>), Prisma's "record not found" and \<^verbatim>\<open>Error("Layout not found")\<close>
  (\<open>NotFound\<close>); every other failure of the store is a \<open>StorageFailure\<close>.\<close>

datatype error = ValidationError | NotFound | StorageFailure

text \<open>Prisma model \<^verbatim>\<open>Tv\<close>: id (primary key), position, imageUrl (nullable),
  updatedAt (\<^verbatim>\<open>@updatedAt\<close>), createdAt (\<^verbatim>\<open>@default(now())\<close>).\<close>

record tv =
  tv_id :: string
  position :: int
  imageUrl :: "string option"
  updatedAt :: time
  createdAt :: time

text \<open>Prisma model \<^verbatim>\<open>Layout\<close>.\<close>

record layout =
  layout_id :: string
  name :: string
  tv1Url :: "string option"
  tv2Url :: "string option"
  tv3Url :: "string option"
  layout_updatedAt :: time
  layout_createdAt :: time

text \<open>The relational store: the two tables, each a list of rows in storage order.\<close>

record db =
  tvs :: "tv list"
  layouts :: "layout list"

section \<open>The store's operations (Prisma client calls the routers make)\<close>

text \<open>\<^verbatim>\<open>db.tv.count()\<close>.\<close>

definition tv_count :: "db \<Rightarrow> nat" where
  "tv_count d = length (tvs d)"

text \<open>\<^verbatim>\<open>db.tv.createMany({data})\<close>: every new row gets \<open>createdAt\<close> and \<open>updatedAt\<close> set to the
  time of the call; a primary key that is already present, or given twice, is a failure of
  the store and inserts nothing.\<close>

definition tv_createMany :: "time \<Rightarrow> (string \<times> int \<times> string option) list \<Rightarrow> db \<Rightarrow> error + db" where
  "tv_createMany now rows d =
     (if distinct (map fst rows) \<and> list_all (\<lambda>r. fst r \<notin> set (map tv_id (tvs d))) rows
      then Inr (d\<lparr>tvs := tvs d @
              map (\<lambda>(i, p, u). \<lparr>tv_id = i, position = p, imageUrl = u,
                                 updatedAt = now, createdAt = now\<rparr>) rows\<rparr>)
      else Inl StorageFailure)"

text \<open>\<^verbatim>\<open>db.tv.update({where: {id}, data})\<close>: Prisma throws when no row has the id; otherwise the
  row is changed by \<open>data\<close>, its \<^verbatim>\<open>@updatedAt\<close> column is set to the time of the call, and the
  updated row is returned.\<close>

definition tv_update :: "time \<Rightarrow> string \<Rightarrow> (tv \<Rightarrow> tv) \<Rightarrow> db \<Rightarrow> error + (tv \<times> db)" where
  "tv_update now i dat d =
     (case find (\<lambda>r. tv_id r = i) (tvs d) of
        None \<Rightarrow> Inl NotFound
      | Some r0 \<Rightarrow>
          Inr ((dat r0)\<lparr>updatedAt := now\<rparr>,
               d\<lparr>tvs := map (\<lambda>r. if tv_id r = i then (dat r)\<lparr>updatedAt := now\<rparr> else r) (tvs d)\<rparr>))"

text \<open>\<^verbatim>\<open>db.tv.updateMany({data: {}})\<close>, an update of every row that sets no column. Whether the
  engine then writes \<^verbatim>\<open>@updatedAt\<close> is a property of the Prisma engine, not of this
  repository; it is the parameter \<open>touch\<close>.\<close>

definition tv_updateMany_empty :: "bool \<Rightarrow> time \<Rightarrow> db \<Rightarrow> db" where
  "tv_updateMany_empty touch now d =
     (if touch then d\<lparr>tvs := map (\<lambda>r. r\<lparr>updatedAt := now\<rparr>) (tvs d)\<rparr> else d)"

text \<open>\<^verbatim>\<open>db.tv.findMany({orderBy: {position: "asc"}})\<close>. Rows with equal positions come in
  storage order (the order among ties is the engine's choice).\<close>

definition tv_findMany :: "db \<Rightarrow> tv list" where
  "tv_findMany d = sort_key position (tvs d)"

text \<open>\<^verbatim>\<open>db.tv.findMany({where: {updatedAt: {gt: t}}, orderBy: {position: "asc"}})\<close>.\<close>

definition tv_findMany_gt :: "time \<Rightarrow> db \<Rightarrow> tv list" where
  "tv_findMany_gt t d = sort_key position (filter (\<lambda>r. updatedAt r > t) (tvs d))"

text \<open>\<^verbatim>\<open>db.$transaction([op1, ..., opn])\<close>: the operations run in order on the store; when one
  fails the transaction is rolled back, so the store is the one before the call. The
  routers ignore the rows the operations return.\<close>

fun run_ops :: "(db \<Rightarrow> error + (tv \<times> db)) list \<Rightarrow> db \<Rightarrow> error + db" where
  "run_ops [] d = Inr d"
| "run_ops (f # fs) d = (case f d of Inl e \<Rightarrow> Inl e | Inr (_, d') \<Rightarrow> run_ops fs d')"

definition transaction :: "(db \<Rightarrow> error + (tv \<times> db)) list \<Rightarrow> db \<Rightarrow> (error + unit) \<times> db" where
  "transaction fs d = (case run_ops fs d of Inl e \<Rightarrow> (Inl e, d) | Inr d' \<Rightarrow> (Inr (), d'))"

text \<open>\<^verbatim>\<open>db.layout.create({data})\<close>: fails when the primary key is already present.\<close>

definition layout_create ::
  "time \<Rightarrow> string \<Rightarrow> string \<Rightarrow> string option \<Rightarrow> string option \<Rightarrow> string option \<Rightarrow> db
     \<Rightarrow> error + (layout \<times> db)" where
  "layout_create now i n u1 u2 u3 d =
     (if list_ex (\<lambda>l. layout_id l = i) (layouts d) then Inl StorageFailure
      else
        (let l = \<lparr>layout_id = i, name = n, tv1Url = u1, tv2Url = u2, tv3Url = u3,
                   layout_updatedAt = now, layout_createdAt = now\<rparr>
         in Inr (l, d\<lparr>layouts := layouts d @ [l]\<rparr>)))"

text \<open>\<^verbatim>\<open>db.layout.findUnique({where: {id}})\<close>: the row, or \<^verbatim>\<open>null\<close>.\<close>

definition layout_findUnique :: "string \<Rightarrow> db \<Rightarrow> layout option" where
  "layout_findUnique i d = find (\<lambda>l. layout_id l = i) (layouts d)"

section \<open>Screen router, database variant\<close>

text \<open>Every procedure takes the store and returns its result (or the error it throws)
  together with the store after the call.\<close>

definition initializeTVs :: "time \<Rightarrow> db \<Rightarrow> (error + unit) \<times> db" where
  "initializeTVs now d =
     (if tv_count d = 0
      then (case tv_createMany now
                   [(''1'', 1, Some ''/image1.png''),
                    (''2'', 2, Some ''/image2.png''),
                    (''3'', 3, Some ''/image3.png'')] d of
              Inl e \<Rightarrow> (Inl e, d)
            | Inr d' \<Rightarrow> (Inr (), d'))
      else (Inr (), d))"

definition getAll :: "time \<Rightarrow> db \<Rightarrow> (error + tv list) \<times> db" where
  "getAll now d =
     (case initializeTVs now d of
        (Inl e, d') \<Rightarrow> (Inl e, d')
      | (Inr _, d') \<Rightarrow> (Inr (tv_findMany d'), d'))"

definition updateOrder :: "time \<Rightarrow> (string \<times> int) list \<Rightarrow> db \<Rightarrow> (error + tv list) \<times> db" where
  "updateOrder now input d =
     (case transaction (map (\<lambda>(i, p). tv_update now i (\<lambda>r. r\<lparr>position := p\<rparr>)) input) d of
        (Inl e, d') \<Rightarrow> (Inl e, d')
      | (Inr _, d') \<Rightarrow> (Inr (tv_findMany d'), d'))"

subsection \<open>The imageUrl rule\<close>

text \<open>
  \<^verbatim>\<open>new URL(val)\<close> is the platform's URL parser, called with no base URL. By the URL
  Standard it first strips leading and trailing C0 control or space characters and removes
  ASCII tabs and newlines; it then needs a scheme: an ASCII letter, then letters, digits,
  \<open>+\<close>, \<open>-\<close> or \<open>.\<close>, then a colon. Without one it fails (there is no base to resolve
  against). What the parser requires of the rest, given the scheme, is not modelled: it is
  the parameter \<open>rest_ok\<close>, applied to the lower-cased scheme and to what follows the colon.
\<close>

definition c0_control_or_space :: "char \<Rightarrow> bool" where
  "c0_control_or_space c = ((of_char c :: nat) \<le> 32)"

definition ascii_tab_or_newline :: "char \<Rightarrow> bool" where
  "ascii_tab_or_newline c = ((of_char c :: nat) = 9 \<or> (of_char c :: nat) = 10 \<or> (of_char c :: nat) = 13)"

definition ascii_upper :: "char \<Rightarrow> bool" where
  "ascii_upper c = (65 \<le> (of_char c :: nat) \<and> (of_char c :: nat) \<le> 90)"

definition ascii_lower :: "char \<Rightarrow> bool" where
  "ascii_lower c = (97 \<le> (of_char c :: nat) \<and> (of_char c :: nat) \<le> 122)"

definition ascii_digit :: "char \<Rightarrow> bool" where
  "ascii_digit c = (48 \<le> (of_char c :: nat) \<and> (of_char c :: nat) \<le> 57)"

definition scheme_char :: "char \<Rightarrow> bool" where
  "scheme_char c = (ascii_upper c \<or> ascii_lower c \<or> ascii_digit c
                     \<or> c = CHR ''+'' \<or> c = CHR ''-'' \<or> c = CHR ''.'')"

text \<open>\<^verbatim>\<open>String.prototype.toLowerCase\<close> on ASCII.\<close>

definition toLowerCase :: "string \<Rightarrow> string" where
  "toLowerCase s = map (\<lambda>c. if ascii_upper c then char_of (of_char c + (32::nat)) else c) s"

definition url_input :: "string \<Rightarrow> string" where
  "url_input s =
     filter (\<lambda>c. \<not> ascii_tab_or_newline c)
       (rev (dropWhile c0_control_or_space (rev (dropWhile c0_control_or_space s))))"

definition url_scheme :: "string \<Rightarrow> (string \<times> string) option" where
  "url_scheme s =
     (case s of
        [] \<Rightarrow> None
      | c # cs \<Rightarrow>
          if ascii_upper c \<or> ascii_lower c then
            (case dropWhile scheme_char cs of
               [] \<Rightarrow> None
             | k # r \<Rightarrow> if k = CHR '':'' then Some (toLowerCase (c # takeWhile scheme_char cs), r)
                         else None)
          else None)"

definition URL_ok :: "(string \<Rightarrow> string \<Rightarrow> bool) \<Rightarrow> string \<Rightarrow> bool" where
  "URL_ok rest_ok val =
     (case url_scheme (url_input val) of None \<Rightarrow> False | Some (sch, r) \<Rightarrow> rest_ok sch r)"

text \<open>\<^verbatim>\<open>String.prototype.startsWith\<close>.\<close>

definition startsWith :: "string \<Rightarrow> string \<Rightarrow> bool" where
  "startsWith s p = (take (length p) s = p)"

text \<open>The \<^verbatim>\<open>refine\<close> callback of \<^verbatim>\<open>updateImage\<close>; \<^verbatim>\<open>!val\<close> holds of the empty string only.\<close>

definition updateImage_refine :: "(string \<Rightarrow> string \<Rightarrow> bool) \<Rightarrow> string \<Rightarrow> bool" where
  "updateImage_refine rest_ok val =
     (if val = [] then True
      else if URL_ok rest_ok val then True
      else startsWith val ''/'')"

text \<open>The schema \<^verbatim>\<open>z.string().refine(...).nullable()\<close>: \<^verbatim>\<open>null\<close> passes, a string passes when the
  callback returns true.\<close>

definition updateImage_schema :: "(string \<Rightarrow> string \<Rightarrow> bool) \<Rightarrow> string option \<Rightarrow> bool" where
  "updateImage_schema rest_ok v = (case v of None \<Rightarrow> True | Some val \<Rightarrow> updateImage_refine rest_ok val)"

definition updateImage ::
  "(string \<Rightarrow> string \<Rightarrow> bool) \<Rightarrow> time \<Rightarrow> string \<Rightarrow> string option \<Rightarrow> db \<Rightarrow> (error + tv) \<times> db" where
  "updateImage rest_ok now i v d =
     (if \<not> updateImage_schema rest_ok v then (Inl ValidationError, d)
      else (case tv_update now i (\<lambda>r. r\<lparr>imageUrl := v\<rparr>) d of
              Inl e \<Rightarrow> (Inl e, d)
            | Inr (r, d') \<Rightarrow> (Inr r, d')))"

definition resetImage :: "time \<Rightarrow> string \<Rightarrow> db \<Rightarrow> (error + tv) \<times> db" where
  "resetImage now i d =
     (case tv_update now i (\<lambda>r. r\<lparr>imageUrl := Some (''/image'' @ i @ ''.png'')\<rparr>) d of
        Inl e \<Rightarrow> (Inl e, d)
      | Inr (r, d') \<Rightarrow> (Inr r, d'))"

text \<open>\<^verbatim>\<open>resetAllImages\<close> makes two calls on the store: the \<^verbatim>\<open>updateMany\<close> with empty data, then
  the transaction of the three updates.\<close>

definition resetAllImages :: "bool \<Rightarrow> time \<Rightarrow> db \<Rightarrow> (error + tv list) \<times> db" where
  "resetAllImages touch now d =
     (let d1 = tv_updateMany_empty touch now d in
      case transaction
             [tv_update now ''1'' (\<lambda>r. r\<lparr>imageUrl := Some ''/image1.png''\<rparr>),
              tv_update now ''2'' (\<lambda>r. r\<lparr>imageUrl := Some ''/image2.png''\<rparr>),
              tv_update now ''3'' (\<lambda>r. r\<lparr>imageUrl := Some ''/image3.png''\<rparr>)] d1 of
        (Inl e, d') \<Rightarrow> (Inl e, d')
      | (Inr _, d') \<Rightarrow> (Inr (tv_findMany d'), d'))"

text \<open>\<^verbatim>\<open>getUpdates\<close>: \<^verbatim>\<open>input || new Date(0)\<close> is the input when one is given (a Date object is
  never falsy), the epoch otherwise.\<close>

definition getUpdates :: "time option \<Rightarrow> db \<Rightarrow> tv list" where
  "getUpdates input d =
     (let lastCheck = (case input of Some t \<Rightarrow> t | None \<Rightarrow> 0) in tv_findMany_gt lastCheck d)"

section \<open>Layout router\<close>

text \<open>\<^verbatim>\<open>save\<close>: the schema asks for a name of length at least 1 and, for each of the three
  fields, a string or \<^verbatim>\<open>null\<close>. \<open>nid\<close> is the identifier \<^verbatim>\<open>nanoid()\<close> returns.\<close>

record save_input =
  in_name :: string
  in_tv1Url :: "string option"
  in_tv2Url :: "string option"
  in_tv3Url :: "string option"

definition save_schema :: "save_input \<Rightarrow> bool" where
  "save_schema inp = (length (in_name inp) \<ge> 1)"

definition save :: "string \<Rightarrow> time \<Rightarrow> save_input \<Rightarrow> db \<Rightarrow> (error + layout) \<times> db" where
  "save nid now inp d =
     (if \<not> save_schema inp then (Inl ValidationError, d)
      else (case layout_create now nid (in_name inp) (in_tv1Url inp) (in_tv2Url inp) (in_tv3Url inp) d of
              Inl e \<Rightarrow> (Inl e, d)
            | Inr (l, d') \<Rightarrow> (Inr l, d')))"

definition restore :: "time \<Rightarrow> string \<Rightarrow> db \<Rightarrow> (error + tv list) \<times> db" where
  "restore now i d =
     (case layout_findUnique i d of
        None \<Rightarrow> (Inl NotFound, d)
      | Some l \<Rightarrow>
          (case transaction
                  [tv_update now ''1'' (\<lambda>r. r\<lparr>imageUrl := tv1Url l\<rparr>),
                   tv_update now ''2'' (\<lambda>r. r\<lparr>imageUrl := tv2Url l\<rparr>),
                   tv_update now ''3'' (\<lambda>r. r\<lparr>imageUrl := tv3Url l\<rparr>)] d of
             (Inl e, d') \<Rightarrow> (Inl e, d')
           | (Inr _, d') \<Rightarrow> (Inr (tv_findMany d'), d')))"

section \<open>Trigger-reload signal\<close>

text \<open>
  The module variables \<^verbatim>\<open>triggerReload\<close> and \<^verbatim>\<open>triggerReloadTimeout\<close>, and the timers of
  the event loop. \<^verbatim>\<open>setTimeout\<close> puts a timer (a fresh handle and the time at which it is
  due) into the loop's list and returns the handle; \<^verbatim>\<open>clearTimeout\<close> takes the timer with
  that handle out. The model is in logical time: a timer fires when its time is reached.
\<close>

record signals =
  triggerReload :: bool
  triggerReloadTimeout :: "nat option"
  timers :: "(nat \<times> time) list"
  next_handle :: nat

definition signals_init :: signals where
  "signals_init = \<lparr>triggerReload = False, triggerReloadTimeout = None, timers = [], next_handle = 0\<rparr>"

definition setTimeout :: "time \<Rightarrow> int \<Rightarrow> signals \<Rightarrow> nat \<times> signals" where
  "setTimeout now delay s =
     (next_handle s,
      s\<lparr>timers := timers s @ [(next_handle s, now + delay)], next_handle := Suc (next_handle s)\<rparr>)"

definition clearTimeout :: "nat \<Rightarrow> signals \<Rightarrow> signals" where
  "clearTimeout h s = s\<lparr>timers := filter (\<lambda>(k, t). k \<noteq> h) (timers s)\<rparr>"

text \<open>The callback every timer of this module runs.\<close>

definition timer_callback :: "signals \<Rightarrow> signals" where
  "timer_callback s = s\<lparr>triggerReload := False, triggerReloadTimeout := None\<rparr>"

text \<open>The event loop at time \<open>now\<close>: every timer that is due is taken out of the list and
  its callback runs.\<close>

definition fire_due :: "time \<Rightarrow> signals \<Rightarrow> signals" where
  "fire_due now s =
     foldl (\<lambda>s' _. timer_callback s') (s\<lparr>timers := filter (\<lambda>(k, t). now < t) (timers s)\<rparr>)
       (filter (\<lambda>(k, t). t \<le> now) (timers s))"

definition setTriggerReload :: "time \<Rightarrow> bool \<Rightarrow> signals \<Rightarrow> bool \<times> signals" where
  "setTriggerReload now trigger s =
     (let s1 = s\<lparr>triggerReload := trigger\<rparr>;
          s2 = (if trigger then
                  (let s3 = (case triggerReloadTimeout s1 of
                               Some h \<Rightarrow> clearTimeout h s1
                             | None \<Rightarrow> s1);
                       (h', s4) = setTimeout now 5000 s3
                   in s4\<lparr>triggerReloadTimeout := Some h'\<rparr>)
                else
                  (case triggerReloadTimeout s1 of
                     Some h \<Rightarrow> (clearTimeout h s1)\<lparr>triggerReloadTimeout := None\<rparr>
                   | None \<Rightarrow> s1))
      in (triggerReload s2, s2))"

definition getTriggerReload :: "signals \<Rightarrow> bool" where
  "getTriggerReload s = triggerReload s"

text \<open>A history of \<^verbatim>\<open>setTriggerReload\<close> calls, each with the time at which it is made; the
  timers due by then have fired before the call runs.\<close>

fun run_calls :: "(time \<times> bool) list \<Rightarrow> signals \<Rightarrow> signals" where
  "run_calls [] s = s"
| "run_calls ((t, b) # cs) s = run_calls cs (snd (setTriggerReload t b (fire_due t s)))"

text \<open>The two shapes the signal state takes: idle (flag false, no handle, no timer) or armed
  (flag true, and exactly one timer, the one whose handle the module holds).\<close>

definition idle_or_armed :: "signals \<Rightarrow> bool" where
  "idle_or_armed s =
     ((\<not> triggerReload s \<and> triggerReloadTimeout s = None \<and> timers s = [])
      \<or> (triggerReload s \<and> (\<exists>h t. triggerReloadTimeout s = Some h \<and> timers s = [(h, t)])))"

section \<open>Screen router, in-memory variant\<close>

text \<open>The interface \<^verbatim>\<open>ScreenConfig\<close> and the module variable \<^verbatim>\<open>screens\<close>, an array whose
  elements the procedures change in place and which \<^verbatim>\<open>sort\<close> reorders in place.\<close>

record ScreenConfig =
  sc_id :: string
  sc_position :: int
  sc_imageUrl :: "string option"
  sc_updatedAt :: time

definition screens_init :: "time \<Rightarrow> ScreenConfig list" where
  "screens_init loaded =
     [\<lparr>sc_id = ''1'', sc_position = 1, sc_imageUrl = Some ''/image1.png'', sc_updatedAt = loaded\<rparr>,
      \<lparr>sc_id = ''2'', sc_position = 2, sc_imageUrl = Some ''/image2.png'', sc_updatedAt = loaded\<rparr>,
      \<lparr>sc_id = ''3'', sc_position = 3, sc_imageUrl = Some ''/image3.png'', sc_updatedAt = loaded\<rparr>]"

text \<open>\<^verbatim>\<open>screens.sort((a, b) => a.position - b.position)\<close>: a stable sort by position.\<close>

definition sort_screens :: "ScreenConfig list \<Rightarrow> ScreenConfig list" where
  "sort_screens ss = sort_key sc_position ss"

text \<open>\<^verbatim>\<open>screens.find(p)\<close> followed by an assignment to the element found: the first element
  that satisfies \<open>p\<close> is changed; when there is none (\<^verbatim>\<open>undefined\<close>) nothing is.\<close>

fun update_first :: "('a \<Rightarrow> bool) \<Rightarrow> ('a \<Rightarrow> 'a) \<Rightarrow> 'a list \<Rightarrow> 'a list" where
  "update_first p f [] = []"
| "update_first p f (x # xs) = (if p x then f x # xs else x # update_first p f xs)"

definition getAll_mem :: "ScreenConfig list \<Rightarrow> ScreenConfig list \<times> ScreenConfig list" where
  "getAll_mem ss = (sort_screens ss, sort_screens ss)"

definition updateOrder_mem ::
  "time \<Rightarrow> (string \<times> int) list \<Rightarrow> ScreenConfig list \<Rightarrow> ScreenConfig list \<times> ScreenConfig list" where
  "updateOrder_mem now input ss =
     (let ss' = foldl (\<lambda>acc (i, p).
                   update_first (\<lambda>s. sc_id s = i) (\<lambda>s. s\<lparr>sc_position := p, sc_updatedAt := now\<rparr>) acc)
                 ss input
      in (sort_screens ss', sort_screens ss'))"

text \<open>The schema \<^verbatim>\<open>z.string().url().nullable()\<close>: zod's \<^verbatim>\<open>url\<close> check is that
  \<^verbatim>\<open>new URL(s)\<close> does not throw.\<close>

definition updateImage_mem_schema :: "(string \<Rightarrow> string \<Rightarrow> bool) \<Rightarrow> string option \<Rightarrow> bool" where
  "updateImage_mem_schema rest_ok v = (case v of None \<Rightarrow> True | Some val \<Rightarrow> URL_ok rest_ok val)"

definition updateImage_mem ::
  "(string \<Rightarrow> string \<Rightarrow> bool) \<Rightarrow> time \<Rightarrow> string \<Rightarrow> string option \<Rightarrow> ScreenConfig list
     \<Rightarrow> (error + ScreenConfig option) \<times> ScreenConfig list" where
  "updateImage_mem rest_ok now i v ss =
     (if \<not> updateImage_mem_schema rest_ok v then (Inl ValidationError, ss)
      else
        (let ss' = update_first (\<lambda>s. sc_id s = i) (\<lambda>s. s\<lparr>sc_imageUrl := v, sc_updatedAt := now\<rparr>) ss
         in (Inr (find (\<lambda>s. sc_id s = i) ss'), ss')))"

definition getUpdates_mem :: "time option \<Rightarrow> ScreenConfig list \<Rightarrow> ScreenConfig list" where
  "getUpdates_mem input ss =
     (let lastCheck = (case input of Some t \<Rightarrow> t | None \<Rightarrow> 0)
      in filter (\<lambda>s. sc_updatedAt s > lastCheck) ss)"

section \<open>Image store\<close>

subsection \<open>The path functions of the platform (POSIX)\<close>

text \<open>
  \<^verbatim>\<open>path.join\<close>, \<^verbatim>\<open>path.resolve\<close> and \<^verbatim>\<open>path.extname\<close> are Node's; they work on the text of
  a path and never look at the file system. They are modelled on the segments between
  slashes: normalisation drops empty and \<open>.\<close> segments, and a \<open>..\<close> segment removes the
  segment before it; at the start of a relative path \<open>..\<close> is kept, at the root of an
  absolute path it is dropped.
\<close>

fun split_sep :: "string \<Rightarrow> string list" where
  "split_sep [] = [[]]"
| "split_sep (c # cs) =
     (if c = CHR ''/'' then [] # split_sep cs
      else (case split_sep cs of [] \<Rightarrow> [[c]] | s # ss \<Rightarrow> (c # s) # ss))"

fun join_sep :: "string list \<Rightarrow> string" where
  "join_sep [] = []"
| "join_sep [s] = s"
| "join_sep (s # t # ss) = s @ ''/'' @ join_sep (t # ss)"

text \<open>The segments kept so far are held in reverse, the last one first.\<close>

fun normalize_segments :: "bool \<Rightarrow> string list \<Rightarrow> string list \<Rightarrow> string list" where
  "normalize_segments allowAboveRoot kept [] = rev kept"
| "normalize_segments allowAboveRoot kept (s # ss) =
     (if s = [] \<or> s = ''.'' then normalize_segments allowAboveRoot kept ss
      else if s = ''..'' then
        (case kept of
           [] \<Rightarrow> normalize_segments allowAboveRoot (if allowAboveRoot then [''..''] else []) ss
         | k # ks \<Rightarrow>
             if k = ''..'' then
               normalize_segments allowAboveRoot (if allowAboveRoot then ''..'' # kept else kept) ss
             else normalize_segments allowAboveRoot ks ss)
      else normalize_segments allowAboveRoot (s # kept) ss)"

definition normalizeString :: "string \<Rightarrow> bool \<Rightarrow> string" where
  "normalizeString path allowAboveRoot = join_sep (normalize_segments allowAboveRoot [] (split_sep path))"

definition path_normalize :: "string \<Rightarrow> string" where
  "path_normalize path =
     (if path = [] then ''.''
      else
        (let isAbsolute = (hd path = CHR ''/'');
             trailingSeparator = (last path = CHR ''/'');
             p = normalizeString path (\<not> isAbsolute)
         in if p = [] then (if isAbsolute then ''/'' else if trailingSeparator then ''./'' else ''.'')
            else (let p' = (if trailingSeparator then p @ ''/'' else p)
                  in if isAbsolute then ''/'' @ p' else p')))"

text \<open>\<^verbatim>\<open>path.join(a, b)\<close>: the non-empty arguments joined by a slash, then normalised.\<close>

definition path_join :: "string \<Rightarrow> string \<Rightarrow> string" where
  "path_join a b =
     (let joined = (if a = [] then b else if b = [] then a else a @ ''/'' @ b)
      in if joined = [] then ''.'' else path_normalize joined)"

text \<open>\<^verbatim>\<open>path.resolve(p)\<close> in a process whose working directory is \<open>cwd\<close>.\<close>

definition path_resolve :: "string \<Rightarrow> string \<Rightarrow> string" where
  "path_resolve cwd p =
     (let r1 = (if p = [] then [] else p @ ''/'');
          abs1 = (p \<noteq> [] \<and> hd p = CHR ''/'');
          r2 = (if abs1 \<or> cwd = [] then r1 else cwd @ ''/'' @ r1);
          abs2 = (abs1 \<or> (cwd \<noteq> [] \<and> hd cwd = CHR ''/''));
          q = normalizeString r2 (\<not> abs2)
      in if abs2 then ''/'' @ q else if q \<noteq> [] then q else ''.'')"

text \<open>\<^verbatim>\<open>path.extname(p)\<close>: of the last segment (trailing slashes aside), the text from its last
  dot on; empty when there is no dot, when the only dot is the first character, or when
  the segment is \<open>..\<close>.\<close>

definition path_extname :: "string \<Rightarrow> string" where
  "path_extname p =
     (let trimmed = rev (dropWhile (\<lambda>c. c = CHR ''/'') (rev p));
          base = rev (takeWhile (\<lambda>c. c \<noteq> CHR ''/'') (rev trimmed));
          ext = rev (takeWhile (\<lambda>c. c \<noteq> CHR ''.'') (rev base));
          stem = take (length base - length ext - 1) base
      in if CHR ''.'' \<notin> set base \<or> stem = [] \<or> base = ''..'' then [] else CHR ''.'' # ext)"

text \<open>\<^verbatim>\<open>String.prototype.includes\<close> (\<open>includes\<close> is a reserved word here).\<close>

fun str_includes :: "string \<Rightarrow> string \<Rightarrow> bool" where
  "str_includes [] p = (p = [])"
| "str_includes (c # cs) p = (startsWith (c # cs) p \<or> str_includes cs p)"

subsection \<open>The image router and the serving route\<close>

text \<open>The environment of the process: whether \<^verbatim>\<open>NODE_ENV\<close> is \<^verbatim>\<open>"production"\<close>, and its
  working directory, an absolute path.\<close>

record env =
  production :: bool
  cwd :: string

text \<open>The file system, as far as these procedures use it: the absolute paths of the regular
  files and of the directories that exist (no path is both). Symbolic links are not
  modelled. The calls take a path relative to the working directory; a path that ends in
  a slash names a directory only.\<close>

record filesystem =
  files :: "string set"
  directories :: "string set"

definition trailing_slash :: "string \<Rightarrow> bool" where
  "trailing_slash p = (p \<noteq> [] \<and> last p = CHR ''/'')"

text \<open>\<^verbatim>\<open>fs.access(p)\<close> does not throw: something exists at the path.\<close>

definition fs_access :: "env \<Rightarrow> string \<Rightarrow> filesystem \<Rightarrow> bool" where
  "fs_access e p fs =
     (if trailing_slash p then path_resolve (cwd e) p \<in> directories fs
      else path_resolve (cwd e) p \<in> files fs \<or> path_resolve (cwd e) p \<in> directories fs)"

text \<open>\<^verbatim>\<open>fs.unlink(p)\<close>: removes a regular file; \<open>None\<close> when it throws (nothing at the path, or
  a directory).\<close>

definition fs_unlink :: "env \<Rightarrow> string \<Rightarrow> filesystem \<Rightarrow> filesystem option" where
  "fs_unlink e p fs =
     (if \<not> trailing_slash p \<and> path_resolve (cwd e) p \<in> files fs
      then Some (fs\<lparr>files := files fs - {path_resolve (cwd e) p}\<rparr>)
      else None)"

text \<open>\<^verbatim>\<open>fs.readFile(p)\<close>: the regular file read, given by its absolute path; \<open>None\<close> when it
  throws (nothing at the path, or a directory).\<close>

definition fs_readFile :: "env \<Rightarrow> string \<Rightarrow> filesystem \<Rightarrow> string option" where
  "fs_readFile e p fs =
     (if \<not> trailing_slash p \<and> path_resolve (cwd e) p \<in> files fs
      then Some (path_resolve (cwd e) p)
      else None)"

definition IMAGE_EXTENSIONS :: "string list" where
  "IMAGE_EXTENSIONS = [''.jpg'', ''.jpeg'', ''.png'', ''.gif'', ''.webp'', ''.svg'', ''.bmp'']"

definition isImageFile :: "string \<Rightarrow> bool" where
  "isImageFile filename = (toLowerCase (path_extname filename) \<in> set IMAGE_EXTENSIONS)"

definition getDataDirectory :: "env \<Rightarrow> string" where
  "getDataDirectory e = (if production e then ''/data/images'' else ''./data/images'')"

text \<open>The errors thrown inside the image router: its own, by their messages, and the error
  of a file-system call that throws.\<close>

datatype image_error =
  Invalid_file_path | File_is_not_a_valid_image | Image_not_found | Failed_to_delete_image
  | System_error

text \<open>The body of the \<^verbatim>\<open>try\<close> block of \<^verbatim>\<open>imagesRouter.delete\<close>.\<close>

definition delete_try :: "env \<Rightarrow> string \<Rightarrow> filesystem \<Rightarrow> (image_error + unit) \<times> filesystem" where
  "delete_try e nm fs =
     (let dataDir = getDataDirectory e;
          filePath = path_join dataDir nm;
          resolvedPath = path_resolve (cwd e) filePath;
          resolvedDataDir = path_resolve (cwd e) dataDir
      in if \<not> startsWith resolvedPath resolvedDataDir then (Inl Invalid_file_path, fs)
         else if \<not> isImageFile nm then (Inl File_is_not_a_valid_image, fs)
         else if \<not> fs_access e filePath fs then (Inl Image_not_found, fs)
         else (case fs_unlink e filePath fs of
                 None \<Rightarrow> (Inl System_error, fs)
               | Some fs' \<Rightarrow> (Inr (), fs')))"

text \<open>\<^verbatim>\<open>imagesRouter.delete\<close>: the \<^verbatim>\<open>catch\<close> block replaces every error by one.\<close>

definition imagesRouter_delete :: "env \<Rightarrow> string \<Rightarrow> filesystem \<Rightarrow> (image_error + unit) \<times> filesystem" where
  "imagesRouter_delete e nm fs =
     (case delete_try e nm fs of
        (Inl _, fs') \<Rightarrow> (Inl Failed_to_delete_image, fs')
      | (Inr u, fs') \<Rightarrow> (Inr u, fs'))"

text \<open>The route \<^verbatim>\<open>GET /api/images/[filename]\<close>. A response is a status with a message, or
  status 200 with the file read (its absolute path) and its MIME type.\<close>

datatype response = Response nat string | File_response string string

definition IMAGE_MIME_TYPES :: "(string \<times> string) list" where
  "IMAGE_MIME_TYPES =
     [(''.jpg'', ''image/jpeg''), (''.jpeg'', ''image/jpeg''), (''.png'', ''image/png''),
      (''.gif'', ''image/gif''), (''.webp'', ''image/webp''), (''.svg'', ''image/svg+xml''),
      (''.bmp'', ''image/bmp'')]"

definition isImageFile_route :: "string \<Rightarrow> bool" where
  "isImageFile_route filename = (toLowerCase (path_extname filename) \<in> fst ` set IMAGE_MIME_TYPES)"

text \<open>The body of the \<^verbatim>\<open>try\<close> block of \<^verbatim>\<open>GET\<close>; \<open>None\<close> when it throws, which only
  \<^verbatim>\<open>fs.readFile\<close> can do here (the path that \<^verbatim>\<open>fs.access\<close> found is a directory).\<close>

definition GET_try :: "env \<Rightarrow> string \<Rightarrow> filesystem \<Rightarrow> response option" where
  "GET_try e filename fs =
     (if str_includes filename ''..'' \<or> str_includes filename ''/'' \<or> str_includes filename [CHR 0x5C]
      then Some (Response 400 ''Invalid filename'')
      else if \<not> isImageFile_route filename then Some (Response 400 ''File is not a valid image'')
      else
        (let dataDir = getDataDirectory e;
             filePath = path_join dataDir filename;
             resolvedPath = path_resolve (cwd e) filePath;
             resolvedDataDir = path_resolve (cwd e) dataDir
         in if \<not> startsWith resolvedPath resolvedDataDir then Some (Response 400 ''Invalid file path'')
            else if \<not> fs_access e filePath fs then Some (Response 404 ''Image not found'')
            else
              (case fs_readFile e filePath fs of
                 None \<Rightarrow> None
               | Some file \<Rightarrow>
                   Some (File_response file
                     (case map_of IMAGE_MIME_TYPES (toLowerCase (path_extname filename)) of
                        Some m \<Rightarrow> m
                      | None \<Rightarrow> ''application/octet-stream'')))))"

text \<open>\<^verbatim>\<open>GET\<close>: the \<^verbatim>\<open>catch\<close> block answers status 500.\<close>

definition GET :: "env \<Rightarrow> string \<Rightarrow> filesystem \<Rightarrow> response" where
  "GET e filename fs =
     (case GET_try e filename fs of
        None \<Rightarrow> Response 500 ''Internal server error''
      | Some r \<Rightarrow> r)"

text \<open>The specification's notion of a path strictly inside the image root.\<close>

definition inside_root :: "string \<Rightarrow> string \<Rightarrow> bool" where
  "inside_root root p = (startsWith p (root @ ''/'') \<and> length p > length root + 1)"

section \<open>The rule of the specification for image references\<close>

text \<open>The specification's rule for \<open>Screen.imageUrl\<close> and for the three fields of a layout,
  in its words: the value is \<open>null\<close>, a syntactically valid absolute URL, or a string
  beginning with "/".\<close>

definition spec_imageUrl_valid :: "(string \<Rightarrow> string \<Rightarrow> bool) \<Rightarrow> string option \<Rightarrow> bool" where
  "spec_imageUrl_valid rest_ok v =
     (case v of None \<Rightarrow> True | Some s \<Rightarrow> URL_ok rest_ok s \<or> startsWith s ''/'')"

section \<open>Example states\<close>

text \<open>A store with the three screens, used where a property is instantiated at a concrete
  state: positions 2, 1, 3 and update times 5, 10, 20.\<close>

definition example_store :: db where
  "example_store =
     \<lparr>tvs = [\<lparr>tv_id = ''1'', position = 2, imageUrl = Some ''/image1.png'', updatedAt = 5, createdAt = 1\<rparr>,
             \<lparr>tv_id = ''2'', position = 1, imageUrl = None, updatedAt = 10, createdAt = 1\<rparr>,
             \<lparr>tv_id = ''3'', position = 3, imageUrl = Some ''/x.png'', updatedAt = 20, createdAt = 1\<rparr>],
      layouts = []\<rparr>"


section \<open>Seeding of the screen registry\<close>

lemma initializeTVs_empty:
  "tvs d = [] \<Longrightarrow> initializeTVs now d =
     (Inr (), d\<lparr>tvs := [\<lparr>tv_id = ''1'', position = 1, imageUrl = Some ''/image1.png'', updatedAt = now, createdAt = now\<rparr>,
                         \<lparr>tv_id = ''2'', position = 2, imageUrl = Some ''/image2.png'', updatedAt = now, createdAt = now\<rparr>,
                         \<lparr>tv_id = ''3'', position = 3, imageUrl = Some ''/image3.png'', updatedAt = now, createdAt = now\<rparr>]\<rparr>)"
  by (simp add: initializeTVs_def tv_count_def tv_createMany_def)

lemma initializeTVs_nonempty: "tvs d \<noteq> [] \<Longrightarrow> initializeTVs now d = (Inr (), d)"
  by (simp add: initializeTVs_def tv_count_def)

text \<open>
  Claim C8. \<open>getAll\<close> on an empty screen table seeds exactly the rows "1", "2", "3" with
  positions 1, 2, 3 and the default images \<open>/image1.png\<close>, \<open>/image2.png\<close>, \<open>/image3.png\<close>;
  on a table that holds any row it seeds nothing and leaves the store as it is; so a second
  call after any first call changes nothing, and no row is duplicated.
\<close>

theorem getAll_seeding:
  "(tvs d = [] \<longrightarrow>
      getAll now d =
        (Inr [\<lparr>tv_id = ''1'', position = 1, imageUrl = Some ''/image1.png'', updatedAt = now, createdAt = now\<rparr>,
              \<lparr>tv_id = ''2'', position = 2, imageUrl = Some ''/image2.png'', updatedAt = now, createdAt = now\<rparr>,
              \<lparr>tv_id = ''3'', position = 3, imageUrl = Some ''/image3.png'', updatedAt = now, createdAt = now\<rparr>],
         d\<lparr>tvs := [\<lparr>tv_id = ''1'', position = 1, imageUrl = Some ''/image1.png'', updatedAt = now, createdAt = now\<rparr>,
                    \<lparr>tv_id = ''2'', position = 2, imageUrl = Some ''/image2.png'', updatedAt = now, createdAt = now\<rparr>,
                    \<lparr>tv_id = ''3'', position = 3, imageUrl = Some ''/image3.png'', updatedAt = now, createdAt = now\<rparr>]\<rparr>))
   \<and> (tvs d \<noteq> [] \<longrightarrow> getAll now d = (Inr (tv_findMany d), d))
   \<and> snd (getAll later (snd (getAll now d))) = snd (getAll now d)"
proof (cases "tvs d = []")
  case True
  then show ?thesis
    by (simp add: getAll_def initializeTVs_empty initializeTVs_nonempty tv_findMany_def)
next
  case False
  then show ?thesis
    by (simp add: getAll_def initializeTVs_nonempty)
qed

theorem getAll_seeding_witness:
  "getAll 5 \<lparr>tvs = [], layouts = []\<rparr> =
        (Inr [\<lparr>tv_id = ''1'', position = 1, imageUrl = Some ''/image1.png'', updatedAt = 5, createdAt = 5\<rparr>,
              \<lparr>tv_id = ''2'', position = 2, imageUrl = Some ''/image2.png'', updatedAt = 5, createdAt = 5\<rparr>,
              \<lparr>tv_id = ''3'', position = 3, imageUrl = Some ''/image3.png'', updatedAt = 5, createdAt = 5\<rparr>],
         \<lparr>tvs = [\<lparr>tv_id = ''1'', position = 1, imageUrl = Some ''/image1.png'', updatedAt = 5, createdAt = 5\<rparr>,
                    \<lparr>tv_id = ''2'', position = 2, imageUrl = Some ''/image2.png'', updatedAt = 5, createdAt = 5\<rparr>,
                    \<lparr>tv_id = ''3'', position = 3, imageUrl = Some ''/image3.png'', updatedAt = 5, createdAt = 5\<rparr>], layouts = []\<rparr>)
   \<and> snd (getAll 9 \<lparr>tvs = [\<lparr>tv_id = ''1'', position = 1, imageUrl = Some ''/image1.png'', updatedAt = 5, createdAt = 5\<rparr>,
                    \<lparr>tv_id = ''2'', position = 2, imageUrl = Some ''/image2.png'', updatedAt = 5, createdAt = 5\<rparr>,
                    \<lparr>tv_id = ''3'', position = 3, imageUrl = Some ''/image3.png'', updatedAt = 5, createdAt = 5\<rparr>], layouts = []\<rparr>)
       = \<lparr>tvs = [\<lparr>tv_id = ''1'', position = 1, imageUrl = Some ''/image1.png'', updatedAt = 5, createdAt = 5\<rparr>,
                    \<lparr>tv_id = ''2'', position = 2, imageUrl = Some ''/image2.png'', updatedAt = 5, createdAt = 5\<rparr>,
                    \<lparr>tv_id = ''3'', position = 3, imageUrl = Some ''/image3.png'', updatedAt = 5, createdAt = 5\<rparr>], layouts = []\<rparr>"
  using getAll_seeding [of "\<lparr>tvs = [], layouts = []\<rparr>" 5 9]
        getAll_seeding [of "\<lparr>tvs = [\<lparr>tv_id = ''1'', position = 1, imageUrl = Some ''/image1.png'', updatedAt = 5, createdAt = 5\<rparr>,
                    \<lparr>tv_id = ''2'', position = 2, imageUrl = Some ''/image2.png'', updatedAt = 5, createdAt = 5\<rparr>,
                    \<lparr>tv_id = ''3'', position = 3, imageUrl = Some ''/image3.png'', updatedAt = 5, createdAt = 5\<rparr>], layouts = []\<rparr>" 9 9]
  by simp

section \<open>Change feed\<close>

lemma getAll_succeeds: "\<exists>d'. getAll now d = (Inr (tv_findMany d'), d') \<and> (tvs d \<noteq> [] \<longrightarrow> d' = d)"
proof (cases "tvs d = []")
  case True
  then show ?thesis by (simp add: getAll_def initializeTVs_empty)
next
  case False
  then show ?thesis by (simp add: getAll_def initializeTVs_nonempty)
qed

lemma mset_getUpdates:
  "mset (getUpdates (Some T) d) = filter_mset (\<lambda>r. T < updatedAt r) (mset (tvs d))"
  by (simp add: getUpdates_def tv_findMany_gt_def)

lemma getUpdates_subset_getAll:
  "\<exists>rows d'. getAll now d = (Inr rows, d') \<and> mset (getUpdates input d) \<subseteq># mset rows"
proof (cases "tvs d = []")
  case True
  then show ?thesis
    by (simp add: getAll_def initializeTVs_empty getUpdates_def tv_findMany_gt_def)
next
  case False
  then show ?thesis
    by (simp add: getAll_def initializeTVs_nonempty getUpdates_def tv_findMany_gt_def tv_findMany_def)
qed

lemma getUpdates_antimono:
  assumes "T \<le> T2"
  shows "mset (getUpdates (Some T2) d) \<subseteq># mset (getUpdates (Some T) d)"
proof -
  have "filter_mset (\<lambda>r. T2 < updatedAt r) (mset (tvs d))
          = filter_mset (\<lambda>r. T2 < updatedAt r) (filter_mset (\<lambda>r. T < updatedAt r) (mset (tvs d)))"
    using assms by (auto intro: filter_mset_cong simp: filter_filter_mset)
  then show ?thesis
    by (simp add: mset_getUpdates del: filter_filter_mset)
qed

text \<open>
  Claim C7. \<open>getUpdates\<close> with cutoff \<open>T\<close> returns exactly the rows whose \<open>updatedAt\<close> is
  strictly greater than \<open>T\<close>, ordered by position; with no input the cutoff is the epoch,
  which gives every row when every row was updated after the epoch; the result is contained
  in what \<open>getAll\<close> returns; and an earlier cutoff returns at least the rows of a later one.
\<close>

theorem getUpdates_change_feed:
  "mset (getUpdates (Some T) d) = filter_mset (\<lambda>r. T < updatedAt r) (mset (tvs d))
   \<and> sorted (map position (getUpdates (Some T) d))
   \<and> getUpdates None d = getUpdates (Some 0) d
   \<and> (list_all (\<lambda>r. 0 < updatedAt r) (tvs d) \<longrightarrow> mset (getUpdates None d) = mset (tvs d))
   \<and> (\<exists>rows d'. getAll now d = (Inr rows, d') \<and> mset (getUpdates (Some T) d) \<subseteq># mset rows)
   \<and> (T \<le> T2 \<longrightarrow> mset (getUpdates (Some T2) d) \<subseteq># mset (getUpdates (Some T) d))"
proof -
  have a: "sorted (map position (getUpdates (Some T) d))"
    by (simp add: getUpdates_def tv_findMany_gt_def)
  have b: "getUpdates None d = getUpdates (Some 0) d"
    by (simp add: getUpdates_def)
  have c: "list_all (\<lambda>r. 0 < updatedAt r) (tvs d) \<longrightarrow> mset (getUpdates None d) = mset (tvs d)"
    by (simp add: getUpdates_def tv_findMany_gt_def list_all_iff)
  show ?thesis
    using a b c mset_getUpdates getUpdates_subset_getAll getUpdates_antimono by blast
qed


theorem getUpdates_change_feed_witness:
  "(7::int) \<le> 12
   \<and> mset (getUpdates (Some 12) example_store) \<subseteq># mset (getUpdates (Some 7) example_store)
   \<and> list_all (\<lambda>r. 0 < updatedAt r) (tvs example_store)
   \<and> mset (getUpdates None example_store) = mset (tvs example_store)"
proof -
  have a: "(7::int) \<le> 12" by simp
  have b: "list_all (\<lambda>r. 0 < updatedAt r) (tvs example_store)"
    by (simp add: example_store_def)
  note t = getUpdates_change_feed [of 7 example_store 0 12]
  from t a have c: "mset (getUpdates (Some 12) example_store) \<subseteq># mset (getUpdates (Some 7) example_store)"
    by blast
  from t b have e: "mset (getUpdates None example_store) = mset (tvs example_store)"
    by blast
  show ?thesis using a b c e by blast
qed

section \<open>Updates and transactions on the screen table\<close>

lemma tv_update_present:
  assumes "i \<in> tv_id ` set (tvs d)"
  shows "\<exists>r. tv_update now i dat d =
           Inr (r, d\<lparr>tvs := map (\<lambda>r. if tv_id r = i then (dat r)\<lparr>updatedAt := now\<rparr> else r) (tvs d)\<rparr>)"
proof -
  from assms have "find (\<lambda>r. tv_id r = i) (tvs d) \<noteq> None"
    by (auto simp: find_None_iff)
  then show ?thesis
    by (auto simp: tv_update_def)
qed

lemma tv_update_absent:
  assumes "i \<notin> tv_id ` set (tvs d)"
  shows "tv_update now i dat d = Inl NotFound"
proof -
  from assms have "find (\<lambda>r. tv_id r = i) (tvs d) = None"
    by (auto simp: find_None_iff)
  then show ?thesis
    by (simp add: tv_update_def)
qed

lemma tv_update_error: "tv_update now i dat d = Inl e \<Longrightarrow> e = NotFound"
  by (auto simp: tv_update_def split: option.splits)

lemma map_tv_id_update:
  assumes "\<And>r. tv_id (f r) = tv_id r"
  shows "map tv_id (map (\<lambda>r. if tv_id r = i then f r else r) xs) = map tv_id xs"
  using assms by (induction xs) auto

lemma ids_update:
  assumes "\<And>r. tv_id (f r) = tv_id r"
  shows "tv_id ` set (map (\<lambda>r. if tv_id r = i then f r else r) xs) = tv_id ` set xs"
proof -
  have "set (map tv_id (map (\<lambda>r. if tv_id r = i then f r else r) xs)) = set (map tv_id xs)"
    using assms by (simp only: map_tv_id_update)
  then show ?thesis by (simp only: set_map)
qed

text \<open>The row a reorder leaves for row \<open>r\<close>: the position of the last pair for its id.\<close>

lemma run_ops_updateOrder_ok:
  assumes "list_all (\<lambda>(i, p). i \<in> tv_id ` set (tvs d)) input"
  shows "run_ops (map (\<lambda>(i, p). tv_update now i (\<lambda>r. r\<lparr>position := p\<rparr>)) input) d =
           Inr (d\<lparr>tvs := map (\<lambda>r. case map_of (rev input) (tv_id r) of
                                      None \<Rightarrow> r
                                    | Some p \<Rightarrow> r\<lparr>position := p, updatedAt := now\<rparr>) (tvs d)\<rparr>)"
  using assms
proof (induction input arbitrary: d)
  case Nil
  then show ?case by simp
next
  case (Cons a input)
  obtain i p where a: "a = (i, p)" by (cases a)
  let ?d1 = "d\<lparr>tvs := map (\<lambda>r. if tv_id r = i then r\<lparr>position := p, updatedAt := now\<rparr> else r) (tvs d)\<rparr>"
  from Cons.prems a have "i \<in> tv_id ` set (tvs d)" by simp
  from tv_update_present [OF this]
  obtain r where r: "tv_update now i (\<lambda>r. r\<lparr>position := p\<rparr>) d = Inr (r, ?d1)"
    by auto
  have ids: "tv_id ` set (tvs ?d1) = tv_id ` set (tvs d)"
    using ids_update [of "\<lambda>r. r\<lparr>position := p, updatedAt := now\<rparr>" i "tvs d"] by simp
  from Cons.prems have "list_all (\<lambda>(i, p). i \<in> tv_id ` set (tvs ?d1)) input"
    unfolding ids by simp
  from Cons.IH [OF this]
  have "run_ops (map (\<lambda>(i, p). tv_update now i (\<lambda>r. r\<lparr>position := p\<rparr>)) input) ?d1 =
          Inr (?d1\<lparr>tvs := map (\<lambda>r. case map_of (rev input) (tv_id r) of
                                      None \<Rightarrow> r
                                    | Some p \<Rightarrow> r\<lparr>position := p, updatedAt := now\<rparr>) (tvs ?d1)\<rparr>)" .
  then show ?case
    using r a by (auto simp: map_add_def split: option.splits)
qed

lemma run_ops_updateOrder_missing:
  assumes "\<not> list_all (\<lambda>(i, p). i \<in> tv_id ` set (tvs d)) input"
  shows "run_ops (map (\<lambda>(i, p). tv_update now i (\<lambda>r. r\<lparr>position := p\<rparr>)) input) d = Inl NotFound"
  using assms
proof (induction input arbitrary: d)
  case Nil
  then show ?case by simp
next
  case (Cons a input)
  obtain i p where a: "a = (i, p)" by (cases a)
  show ?case
  proof (cases "i \<in> tv_id ` set (tvs d)")
    case False
    then show ?thesis using a by (simp add: tv_update_absent)
  next
    case True
    let ?d1 = "d\<lparr>tvs := map (\<lambda>r. if tv_id r = i then r\<lparr>position := p, updatedAt := now\<rparr> else r) (tvs d)\<rparr>"
    from tv_update_present [OF True]
    obtain r where r: "tv_update now i (\<lambda>r. r\<lparr>position := p\<rparr>) d = Inr (r, ?d1)"
      by auto
    have ids: "tv_id ` set (tvs ?d1) = tv_id ` set (tvs d)"
      using ids_update [of "\<lambda>r. r\<lparr>position := p, updatedAt := now\<rparr>" i "tvs d"] by simp
    from Cons.prems True a have "\<not> list_all (\<lambda>(i, p). i \<in> tv_id ` set (tvs ?d1)) input"
      unfolding ids by simp
    from Cons.IH [OF this] show ?thesis
      using r a by simp
  qed
qed


lemma transaction_rollback: "transaction fs d = (Inl e, d') \<Longrightarrow> d' = d"
  by (auto simp: transaction_def split: sum.splits)

lemma tv_update_step:
  assumes "i \<in> tv_id ` set (tvs d)"
  shows "run_ops (tv_update now i dat # fs) d =
           run_ops fs (d\<lparr>tvs := map (\<lambda>r. if tv_id r = i then (dat r)\<lparr>updatedAt := now\<rparr> else r) (tvs d)\<rparr>)"
  using tv_update_present [OF assms, of now dat] by auto

lemma tv_update_step_absent:
  assumes "i \<notin> tv_id ` set (tvs d)"
  shows "run_ops (tv_update now i dat # fs) d = Inl NotFound"
  using tv_update_absent [OF assms] by simp

lemma run_ops_three_ok:
  assumes "''1'' \<in> tv_id ` set (tvs d)" "''2'' \<in> tv_id ` set (tvs d)" "''3'' \<in> tv_id ` set (tvs d)"
    and "\<And>r. tv_id (f1 r) = tv_id r" "\<And>r. tv_id (f2 r) = tv_id r" "\<And>r. tv_id (f3 r) = tv_id r"
  shows "run_ops [tv_update now ''1'' f1, tv_update now ''2'' f2, tv_update now ''3'' f3] d =
           Inr (d\<lparr>tvs := map (\<lambda>r. if tv_id r = ''1'' then (f1 r)\<lparr>updatedAt := now\<rparr>
                                    else if tv_id r = ''2'' then (f2 r)\<lparr>updatedAt := now\<rparr>
                                    else if tv_id r = ''3'' then (f3 r)\<lparr>updatedAt := now\<rparr>
                                    else r) (tvs d)\<rparr>)"
proof -
  let ?g1 = "\<lambda>r. if tv_id r = ''1'' then (f1 r)\<lparr>updatedAt := now\<rparr> else r"
  let ?g2 = "\<lambda>r. if tv_id r = ''2'' then (f2 r)\<lparr>updatedAt := now\<rparr> else r"
  let ?g3 = "\<lambda>r. if tv_id r = ''3'' then (f3 r)\<lparr>updatedAt := now\<rparr> else r"
  let ?d1 = "d\<lparr>tvs := map ?g1 (tvs d)\<rparr>"
  let ?d2 = "?d1\<lparr>tvs := map ?g2 (tvs ?d1)\<rparr>"
  let ?d3 = "?d2\<lparr>tvs := map ?g3 (tvs ?d2)\<rparr>"
  have i1: "tv_id ` set (tvs ?d1) = tv_id ` set (tvs d)"
    using ids_update [of "\<lambda>r. (f1 r)\<lparr>updatedAt := now\<rparr>" "''1''" "tvs d"] assms(4) by simp
  have i2: "tv_id ` set (tvs ?d2) = tv_id ` set (tvs ?d1)"
    using ids_update [of "\<lambda>r. (f2 r)\<lparr>updatedAt := now\<rparr>" "''2''" "tvs ?d1"] assms(5) by simp
  have s1: "run_ops [tv_update now ''1'' f1, tv_update now ''2'' f2, tv_update now ''3'' f3] d =
              run_ops [tv_update now ''2'' f2, tv_update now ''3'' f3] ?d1"
    by (rule tv_update_step [OF assms(1)])
  have s2: "run_ops [tv_update now ''2'' f2, tv_update now ''3'' f3] ?d1 = run_ops [tv_update now ''3'' f3] ?d2"
    by (rule tv_update_step) (use assms(2) i1 in simp)
  have s3: "run_ops [tv_update now ''3'' f3] ?d2 = run_ops [] ?d3"
    by (rule tv_update_step) (use assms(3) i1 i2 in simp)
  have "?d3 = d\<lparr>tvs := map (\<lambda>r. if tv_id r = ''1'' then (f1 r)\<lparr>updatedAt := now\<rparr>
                                    else if tv_id r = ''2'' then (f2 r)\<lparr>updatedAt := now\<rparr>
                                    else if tv_id r = ''3'' then (f3 r)\<lparr>updatedAt := now\<rparr>
                                    else r) (tvs d)\<rparr>"
    using assms(4,5,6) by (auto simp: comp_def)
  with s1 s2 s3 show ?thesis by simp
qed

lemma run_ops_three_missing:
  assumes "\<not> (''1'' \<in> tv_id ` set (tvs d) \<and> ''2'' \<in> tv_id ` set (tvs d) \<and> ''3'' \<in> tv_id ` set (tvs d))"
    and "\<And>r. tv_id (f1 r) = tv_id r" "\<And>r. tv_id (f2 r) = tv_id r" "\<And>r. tv_id (f3 r) = tv_id r"
  shows "run_ops [tv_update now ''1'' f1, tv_update now ''2'' f2, tv_update now ''3'' f3] d = Inl NotFound"
proof (cases "''1'' \<in> tv_id ` set (tvs d)")
  case False
  then show ?thesis by (rule tv_update_step_absent)
next
  case one: True
  let ?g1 = "\<lambda>r. if tv_id r = ''1'' then (f1 r)\<lparr>updatedAt := now\<rparr> else r"
  let ?d1 = "d\<lparr>tvs := map ?g1 (tvs d)\<rparr>"
  have i1: "tv_id ` set (tvs ?d1) = tv_id ` set (tvs d)"
    using ids_update [of "\<lambda>r. (f1 r)\<lparr>updatedAt := now\<rparr>" "''1''" "tvs d"] assms(2) by simp
  have s1: "run_ops [tv_update now ''1'' f1, tv_update now ''2'' f2, tv_update now ''3'' f3] d =
              run_ops [tv_update now ''2'' f2, tv_update now ''3'' f3] ?d1"
    by (rule tv_update_step [OF one])
  show ?thesis
  proof (cases "''2'' \<in> tv_id ` set (tvs d)")
    case False
    then have "''2'' \<notin> tv_id ` set (tvs ?d1)" using i1 by simp
    from tv_update_step_absent [OF this] s1 show ?thesis by simp
  next
    case two: True
    let ?g2 = "\<lambda>r. if tv_id r = ''2'' then (f2 r)\<lparr>updatedAt := now\<rparr> else r"
    let ?d2 = "?d1\<lparr>tvs := map ?g2 (tvs ?d1)\<rparr>"
    have i2: "tv_id ` set (tvs ?d2) = tv_id ` set (tvs ?d1)"
      using ids_update [of "\<lambda>r. (f2 r)\<lparr>updatedAt := now\<rparr>" "''2''" "tvs ?d1"] assms(3) by simp
    have s2: "run_ops [tv_update now ''2'' f2, tv_update now ''3'' f3] ?d1 = run_ops [tv_update now ''3'' f3] ?d2"
      by (rule tv_update_step) (use two i1 in simp)
    from assms(1) one two have "''3'' \<notin> tv_id ` set (tvs d)" by simp
    then have "''3'' \<notin> tv_id ` set (tvs ?d2)" using i1 i2 by simp
    from tv_update_step_absent [OF this] s1 s2 show ?thesis by simp
  qed
qed

section \<open>Reordering\<close>

lemma update_first_distinct:
  assumes "distinct (map sc_id ss)" and "\<And>s. sc_id (f s) = sc_id s"
  shows "update_first (\<lambda>s. sc_id s = i) f ss = map (\<lambda>s. if sc_id s = i then f s else s) ss"
  using assms(1)
proof (induction ss)
  case Nil
  then show ?case by simp
next
  case (Cons a ss)
  show ?case
  proof (cases "sc_id a = i")
    case True
    from Cons.prems True have "i \<notin> sc_id ` set ss" by simp
    then have "\<And>s. s \<in> set ss \<Longrightarrow> sc_id s \<noteq> i" by blast
    then have "map (\<lambda>s. if sc_id s = i then f s else s) ss = ss"
      by (simp add: map_idI)
    with True show ?thesis by simp
  next
    case False
    with Cons show ?thesis by simp
  qed
qed

lemma map_sc_id_update_first:
  assumes "\<And>s. sc_id (f s) = sc_id s"
  shows "map sc_id (update_first p f ss) = map sc_id ss"
  using assms by (induction ss) auto

lemma foldl_update_first_ids:
  "map sc_id (foldl (\<lambda>acc (i, p).
       update_first (\<lambda>s. sc_id s = i) (\<lambda>s. s\<lparr>sc_position := p, sc_updatedAt := now\<rparr>) acc) ss input)
     = map sc_id ss"
proof (induction input arbitrary: ss)
  case Nil
  then show ?case by simp
next
  case (Cons a input)
  obtain i p where a: "a = (i, p)" by (cases a)
  show ?case
    using Cons.IH a by (simp add: map_sc_id_update_first)
qed

lemma foldl_update_first_closed:
  assumes "distinct (map sc_id ss)"
  shows "foldl (\<lambda>acc (i, p).
       update_first (\<lambda>s. sc_id s = i) (\<lambda>s. s\<lparr>sc_position := p, sc_updatedAt := now\<rparr>) acc) ss input
     = map (\<lambda>s. case map_of (rev input) (sc_id s) of
                   None \<Rightarrow> s
                 | Some p \<Rightarrow> s\<lparr>sc_position := p, sc_updatedAt := now\<rparr>) ss"
  using assms
proof (induction input arbitrary: ss)
  case Nil
  then show ?case by simp
next
  case (Cons a input)
  obtain i p where a: "a = (i, p)" by (cases a)
  let ?ss1 = "map (\<lambda>s. if sc_id s = i then s\<lparr>sc_position := p, sc_updatedAt := now\<rparr> else s) ss"
  have u: "update_first (\<lambda>s. sc_id s = i) (\<lambda>s. s\<lparr>sc_position := p, sc_updatedAt := now\<rparr>) ss = ?ss1"
    by (rule update_first_distinct [OF Cons.prems]) simp
  have "map sc_id ?ss1 = map sc_id ss"
    by (induction ss) auto
  with Cons.prems have "distinct (map sc_id ?ss1)" by (simp only:)
  from Cons.IH [OF this] u a show ?case
    by (auto simp: map_add_def split: option.splits)
qed

lemma map_of_filter_known:
  assumes "k \<in> S"
  shows "map_of (filter (\<lambda>(i, p). i \<in> S) xs) k = map_of xs k"
  using assms by (induction xs) auto

lemma updateOrder_mem_closed:
  assumes "distinct (map sc_id ss)"
  shows "fst (updateOrder_mem now input ss) =
           sort_key sc_position
             (map (\<lambda>s. case map_of (rev input) (sc_id s) of
                          None \<Rightarrow> s
                        | Some p \<Rightarrow> s\<lparr>sc_position := p, sc_updatedAt := now\<rparr>) ss)"
  by (simp add: updateOrder_mem_def sort_screens_def foldl_update_first_closed [OF assms] Let_def)

lemma updateOrder_mem_ignores_unknown:
  assumes "distinct (map sc_id ss)"
  shows "updateOrder_mem now (filter (\<lambda>(i, p). i \<in> sc_id ` set ss) input) ss = updateOrder_mem now input ss"
proof -
  have m: "map (\<lambda>s. case map_of (rev (filter (\<lambda>(i, p). i \<in> sc_id ` set ss) input)) (sc_id s) of
                   None \<Rightarrow> s | Some p \<Rightarrow> s\<lparr>sc_position := p, sc_updatedAt := now\<rparr>) ss
        = map (\<lambda>s. case map_of (rev input) (sc_id s) of
                   None \<Rightarrow> s | Some p \<Rightarrow> s\<lparr>sc_position := p, sc_updatedAt := now\<rparr>) ss"
    by (rule map_cong) (simp_all add: rev_filter map_of_filter_known)
  show ?thesis
    by (simp only: updateOrder_mem_def foldl_update_first_closed [OF assms] m)
qed

lemma updateOrder_ok:
  assumes "list_all (\<lambda>(i, p). i \<in> tv_id ` set (tvs d)) input"
  shows "updateOrder now input d =
           (Inr (sort_key position
                   (map (\<lambda>r. case map_of (rev input) (tv_id r) of
                                None \<Rightarrow> r
                              | Some p \<Rightarrow> r\<lparr>position := p, updatedAt := now\<rparr>) (tvs d))),
            d\<lparr>tvs := map (\<lambda>r. case map_of (rev input) (tv_id r) of
                                None \<Rightarrow> r
                              | Some p \<Rightarrow> r\<lparr>position := p, updatedAt := now\<rparr>) (tvs d)\<rparr>)"
  by (simp add: updateOrder_def transaction_def run_ops_updateOrder_ok [OF assms] tv_findMany_def)

lemma updateOrder_missing:
  assumes "\<not> list_all (\<lambda>(i, p). i \<in> tv_id ` set (tvs d)) input"
  shows "updateOrder now input d = (Inl NotFound, d)"
  by (simp add: updateOrder_def transaction_def run_ops_updateOrder_missing [OF assms])

lemma updateOrder_ids: "map tv_id (tvs (snd (updateOrder now input d))) = map tv_id (tvs d)"
proof (cases "list_all (\<lambda>(i, p). i \<in> tv_id ` set (tvs d)) input")
  case True
  have "map tv_id (map (\<lambda>r. case map_of (rev input) (tv_id r) of
                                None \<Rightarrow> r
                              | Some p \<Rightarrow> r\<lparr>position := p, updatedAt := now\<rparr>) (tvs d)) = map tv_id (tvs d)"
    by (induction "tvs d") (auto split: option.splits)
  then show ?thesis by (simp add: updateOrder_ok [OF True])
next
  case False
  then show ?thesis by (simp add: updateOrder_missing)
qed

text \<open>
  Claim C5, as amended. The in-memory \<open>updateOrder\<close> gives every screen the position of the last
  pair with its id, leaves the screens no pair names as they are, ignores pairs whose id
  is not in the registry, and returns the screens sorted by position, the same screens as
  before. The database \<open>updateOrder\<close> does the same when every id of the input is in the
  table; when some id is not, it fails with \<open>NotFound\<close> and the table is unchanged. Neither
  creates a row.
\<close>

theorem updateOrder_variants:
  "(distinct (map sc_id ss) \<longrightarrow>
      fst (updateOrder_mem now input ss) =
        sort_key sc_position
          (map (\<lambda>s. case map_of (rev input) (sc_id s) of
                       None \<Rightarrow> s
                     | Some p \<Rightarrow> s\<lparr>sc_position := p, sc_updatedAt := now\<rparr>) ss)
      \<and> updateOrder_mem now (filter (\<lambda>(i, p). i \<in> sc_id ` set ss) input) ss = updateOrder_mem now input ss)
   \<and> snd (updateOrder_mem now input ss) = fst (updateOrder_mem now input ss)
   \<and> sorted (map sc_position (fst (updateOrder_mem now input ss)))
   \<and> mset (map sc_id (fst (updateOrder_mem now input ss))) = mset (map sc_id ss)
   \<and> (list_all (\<lambda>(i, p). i \<in> tv_id ` set (tvs d)) input \<longrightarrow>
        updateOrder now input d =
           (Inr (sort_key position
                   (map (\<lambda>r. case map_of (rev input) (tv_id r) of
                                None \<Rightarrow> r
                              | Some p \<Rightarrow> r\<lparr>position := p, updatedAt := now\<rparr>) (tvs d))),
            d\<lparr>tvs := map (\<lambda>r. case map_of (rev input) (tv_id r) of
                                None \<Rightarrow> r
                              | Some p \<Rightarrow> r\<lparr>position := p, updatedAt := now\<rparr>) (tvs d)\<rparr>))
   \<and> (\<not> list_all (\<lambda>(i, p). i \<in> tv_id ` set (tvs d)) input \<longrightarrow>
        updateOrder now input d = (Inl NotFound, d))
   \<and> map tv_id (tvs (snd (updateOrder now input d))) = map tv_id (tvs d)"
proof -
  have a: "snd (updateOrder_mem now input ss) = fst (updateOrder_mem now input ss)"
    by (simp add: updateOrder_mem_def Let_def)
  have b: "sorted (map sc_position (fst (updateOrder_mem now input ss)))"
    by (simp add: updateOrder_mem_def Let_def sort_screens_def)
  have "mset (map sc_id (fst (updateOrder_mem now input ss))) =
          mset (map sc_id (foldl (\<lambda>acc (i, p).
             update_first (\<lambda>s. sc_id s = i) (\<lambda>s. s\<lparr>sc_position := p, sc_updatedAt := now\<rparr>) acc) ss input))"
    by (simp add: updateOrder_mem_def Let_def sort_screens_def)
  then have c: "mset (map sc_id (fst (updateOrder_mem now input ss))) = mset (map sc_id ss)"
    by (simp only: foldl_update_first_ids)
  show ?thesis
    using a b c updateOrder_mem_closed updateOrder_mem_ignores_unknown
      updateOrder_ok updateOrder_missing updateOrder_ids
    by blast
qed

theorem updateOrder_variants_witness:
  "distinct (map sc_id (screens_init 0))
   \<and> map (\<lambda>s. (sc_id s, sc_position s))
         (fst (updateOrder_mem 7 [(''1'', 3::int), (''9'', 0), (''2'', 1), (''3'', 2)] (screens_init 0)))
       = [(''2'', 1), (''3'', 2), (''1'', 3)]
   \<and> list_all (\<lambda>(i, p). i \<in> tv_id ` set (tvs example_store)) [(''1'', 3::int), (''2'', 1), (''3'', 2)]
   \<and> map (\<lambda>r. (tv_id r, position r))
         (tvs (snd (updateOrder 7 [(''1'', 3::int), (''2'', 1), (''3'', 2)] example_store)))
       = [(''1'', 3::int), (''2'', 1), (''3'', 2)]
   \<and> \<not> list_all (\<lambda>(i, p). i \<in> tv_id ` set (tvs example_store)) [(''1'', 3::int), (''9'', 0)]
   \<and> updateOrder 7 [(''1'', 3::int), (''9'', 0)] example_store = (Inl NotFound, example_store)"
proof -
  have h1: "distinct (map sc_id (screens_init 0))"
    by (simp add: screens_init_def)
  have h2: "list_all (\<lambda>(i, p). i \<in> tv_id ` set (tvs example_store)) [(''1'', 3::int), (''2'', 1), (''3'', 2)]"
    by (simp add: example_store_def)
  have h3: "\<not> list_all (\<lambda>(i, p). i \<in> tv_id ` set (tvs example_store)) [(''1'', 3::int), (''9'', 0)]"
    by (simp add: example_store_def)
  from updateOrder_variants [where ss = "screens_init 0" and now = 7
         and input = "[(''1'', 3::int), (''9'', 0), (''2'', 1), (''3'', 2)]" and d = example_store] h1
  have a: "fst (updateOrder_mem 7 [(''1'', 3::int), (''9'', 0), (''2'', 1), (''3'', 2)] (screens_init 0)) =
        sort_key sc_position
          (map (\<lambda>s. case map_of (rev [(''1'', 3::int), (''9'', 0), (''2'', 1), (''3'', 2)]) (sc_id s) of
                       None \<Rightarrow> s
                     | Some p \<Rightarrow> s\<lparr>sc_position := p, sc_updatedAt := 7\<rparr>) (screens_init 0))"
    by blast
  from updateOrder_variants [where ss = "screens_init 0" and now = 7
         and input = "[(''1'', 3::int), (''2'', 1), (''3'', 2)]" and d = example_store] h2
  have b: "updateOrder 7 [(''1'', 3::int), (''2'', 1), (''3'', 2)] example_store =
           (Inr (sort_key position
                   (map (\<lambda>r. case map_of (rev [(''1'', 3::int), (''2'', 1), (''3'', 2)]) (tv_id r) of
                                None \<Rightarrow> r
                              | Some p \<Rightarrow> r\<lparr>position := p, updatedAt := 7\<rparr>) (tvs example_store))),
            example_store\<lparr>tvs := map (\<lambda>r. case map_of (rev [(''1'', 3::int), (''2'', 1), (''3'', 2)]) (tv_id r) of
                                None \<Rightarrow> r
                              | Some p \<Rightarrow> r\<lparr>position := p, updatedAt := 7\<rparr>) (tvs example_store)\<rparr>)"
    by blast
  from updateOrder_variants [where ss = "screens_init 0" and now = 7
         and input = "[(''1'', 3::int), (''9'', 0)]" and d = example_store] h3
  have c: "updateOrder 7 [(''1'', 3::int), (''9'', 0)] example_store = (Inl NotFound, example_store)"
    by blast
  have a': "map (\<lambda>s. (sc_id s, sc_position s))
         (fst (updateOrder_mem 7 [(''1'', 3::int), (''9'', 0), (''2'', 1), (''3'', 2)] (screens_init 0)))
       = [(''2'', 1), (''3'', 2), (''1'', 3)]"
    unfolding a by (simp add: screens_init_def)
  have b': "map (\<lambda>r. (tv_id r, position r))
         (tvs (snd (updateOrder 7 [(''1'', 3::int), (''2'', 1), (''3'', 2)] example_store)))
       = [(''1'', 3::int), (''2'', 1), (''3'', 2)]"
    unfolding b by (simp add: example_store_def)
  show ?thesis using h1 h2 h3 a' b' c by blast
qed

text \<open>The claim as stated fails on the database variant: a pair whose id is not in the
  table is not ignored, the call fails with \<open>NotFound\<close>.\<close>

theorem updateOrder_unknown_id_counterexample:
  "fst (updateOrder 7 [(''9'', 1)] example_store) = Inl NotFound"
  by (simp add: updateOrder_def transaction_def tv_update_def example_store_def)

section \<open>Atomicity of the batch mutations\<close>

lemma restore_absent: "layout_findUnique i d = None \<Longrightarrow> restore now i d = (Inl NotFound, d)"
  by (simp add: restore_def)

lemma restore_present_ok:
  assumes "layout_findUnique i d = Some l"
    and "''1'' \<in> tv_id ` set (tvs d)" "''2'' \<in> tv_id ` set (tvs d)" "''3'' \<in> tv_id ` set (tvs d)"
  shows "restore now i d =
           (Inr (sort_key position
                  (map (\<lambda>r. if tv_id r = ''1'' then r\<lparr>imageUrl := tv1Url l, updatedAt := now\<rparr>
                             else if tv_id r = ''2'' then r\<lparr>imageUrl := tv2Url l, updatedAt := now\<rparr>
                             else if tv_id r = ''3'' then r\<lparr>imageUrl := tv3Url l, updatedAt := now\<rparr>
                             else r) (tvs d))),
            d\<lparr>tvs := map (\<lambda>r. if tv_id r = ''1'' then r\<lparr>imageUrl := tv1Url l, updatedAt := now\<rparr>
                             else if tv_id r = ''2'' then r\<lparr>imageUrl := tv2Url l, updatedAt := now\<rparr>
                             else if tv_id r = ''3'' then r\<lparr>imageUrl := tv3Url l, updatedAt := now\<rparr>
                             else r) (tvs d)\<rparr>)"
  using run_ops_three_ok [OF assms(2,3,4), of "\<lambda>r. r\<lparr>imageUrl := tv1Url l\<rparr>"
          "\<lambda>r. r\<lparr>imageUrl := tv2Url l\<rparr>" "\<lambda>r. r\<lparr>imageUrl := tv3Url l\<rparr>" now] assms(1)
  by (simp add: restore_def transaction_def tv_findMany_def)









text \<open>The roll-back at work: the earlier updates of a batch succeed, a later one fails, and
  the store is the one before the call.\<close>

lemma updateOrder_rolls_back:
  "updateOrder 7 [(''1'', 3), (''2'', 1), (''9'', 0)] example_store = (Inl NotFound, example_store)"
  by (simp add: updateOrder_def transaction_def tv_update_def example_store_def)

lemma restore_rolls_back:
  "restore 7 ''L''
     \<lparr>tvs = [\<lparr>tv_id = ''1'', position = 1, imageUrl = None, updatedAt = 5, createdAt = 1\<rparr>,
             \<lparr>tv_id = ''2'', position = 2, imageUrl = None, updatedAt = 6, createdAt = 1\<rparr>],
      layouts = [\<lparr>layout_id = ''L'', name = ''Evening'', tv1Url = Some ''/a.png'', tv2Url = Some ''/b.png'',
                  tv3Url = None, layout_updatedAt = 2, layout_createdAt = 2\<rparr>]\<rparr>
   = (Inl NotFound,
      \<lparr>tvs = [\<lparr>tv_id = ''1'', position = 1, imageUrl = None, updatedAt = 5, createdAt = 1\<rparr>,
              \<lparr>tv_id = ''2'', position = 2, imageUrl = None, updatedAt = 6, createdAt = 1\<rparr>],
       layouts = [\<lparr>layout_id = ''L'', name = ''Evening'', tv1Url = Some ''/a.png'', tv2Url = Some ''/b.png'',
                   tv3Url = None, layout_updatedAt = 2, layout_createdAt = 2\<rparr>]\<rparr>)"
  by (simp add: restore_def layout_findUnique_def transaction_def tv_update_def)

lemma resetAllImages_no_stamp_rolls_back:
  "resetAllImages False 7
     \<lparr>tvs = [\<lparr>tv_id = ''1'', position = 1, imageUrl = Some ''/a.png'', updatedAt = 5, createdAt = 1\<rparr>,
             \<lparr>tv_id = ''2'', position = 2, imageUrl = None, updatedAt = 6, createdAt = 1\<rparr>],
      layouts = []\<rparr>
   = (Inl NotFound,
      \<lparr>tvs = [\<lparr>tv_id = ''1'', position = 1, imageUrl = Some ''/a.png'', updatedAt = 5, createdAt = 1\<rparr>,
              \<lparr>tv_id = ''2'', position = 2, imageUrl = None, updatedAt = 6, createdAt = 1\<rparr>],
       layouts = []\<rparr>)"
  by (simp add: resetAllImages_def transaction_def tv_update_def tv_updateMany_empty_def)


section \<open>Layout catalog\<close>

lemma find_snoc_fresh:
  assumes "\<not> list_ex p xs" and "p x"
  shows "find p (xs @ [x]) = Some x"
  using assms by (induction xs) auto

lemma save_ok:
  assumes "in_name inp \<noteq> []" and "nid \<notin> layout_id ` set (layouts d)"
  shows "save nid now inp d =
           (Inr \<lparr>layout_id = nid, name = in_name inp, tv1Url = in_tv1Url inp, tv2Url = in_tv2Url inp,
                  tv3Url = in_tv3Url inp, layout_updatedAt = now, layout_createdAt = now\<rparr>,
            d\<lparr>layouts := layouts d @
                 [\<lparr>layout_id = nid, name = in_name inp, tv1Url = in_tv1Url inp, tv2Url = in_tv2Url inp,
                   tv3Url = in_tv3Url inp, layout_updatedAt = now, layout_createdAt = now\<rparr>]\<rparr>)"
proof -
  from assms(1) have "save_schema inp"
    by (cases "in_name inp") (simp_all add: save_schema_def)
  moreover from assms(2) have "\<not> list_ex (\<lambda>l. layout_id l = nid) (layouts d)"
    by (auto simp: list_ex_iff)
  ultimately show ?thesis
    by (simp add: save_def layout_create_def Let_def)
qed

lemma save_empty_name: "in_name inp = [] \<Longrightarrow> save nid now inp d = (Inl ValidationError, d)"
  by (simp add: save_def save_schema_def)

lemma save_keeps_screens: "tvs (snd (save nid now inp d)) = tvs d"
  by (auto simp: save_def layout_create_def Let_def)

text \<open>
  Claim C4. For a non-empty name and any three nullable fields, \<open>save\<close> followed by \<open>restore\<close>
  of the identifier \<open>save\<close> returned gives the screens "1", "2", "3" the three saved values,
  in the store and in the list \<open>restore\<close> returns. The screens are those of a seeded
  registry, and the identifier \<open>nanoid()\<close> generated is not one of a stored layout.
\<close>

theorem save_restore_roundtrip:
  assumes "in_name inp \<noteq> []"
    and "nid \<notin> layout_id ` set (layouts d)"
    and "''1'' \<in> tv_id ` set (tvs d)" "''2'' \<in> tv_id ` set (tvs d)" "''3'' \<in> tv_id ` set (tvs d)"
  shows "\<exists>l d1 rows d2.
           save nid t1 inp d = (Inr l, d1) \<and> layout_id l = nid
           \<and> restore t2 (layout_id l) d1 = (Inr rows, d2)
           \<and> set rows = set (tvs d2)
           \<and> ''1'' \<in> tv_id ` set (tvs d2) \<and> ''2'' \<in> tv_id ` set (tvs d2) \<and> ''3'' \<in> tv_id ` set (tvs d2)
           \<and> list_all (\<lambda>r. (tv_id r = ''1'' \<longrightarrow> imageUrl r = in_tv1Url inp)
                          \<and> (tv_id r = ''2'' \<longrightarrow> imageUrl r = in_tv2Url inp)
                          \<and> (tv_id r = ''3'' \<longrightarrow> imageUrl r = in_tv3Url inp)) (tvs d2)"
proof -
  let ?l = "\<lparr>layout_id = nid, name = in_name inp, tv1Url = in_tv1Url inp, tv2Url = in_tv2Url inp,
              tv3Url = in_tv3Url inp, layout_updatedAt = t1, layout_createdAt = t1\<rparr>"
  let ?d1 = "d\<lparr>layouts := layouts d @ [?l]\<rparr>"
  let ?g = "\<lambda>r. if tv_id r = ''1'' then r\<lparr>imageUrl := tv1Url ?l, updatedAt := t2\<rparr>
                 else if tv_id r = ''2'' then r\<lparr>imageUrl := tv2Url ?l, updatedAt := t2\<rparr>
                 else if tv_id r = ''3'' then r\<lparr>imageUrl := tv3Url ?l, updatedAt := t2\<rparr>
                 else r"
  let ?d2 = "?d1\<lparr>tvs := map ?g (tvs ?d1)\<rparr>"
  have s: "save nid t1 inp d = (Inr ?l, ?d1)"
    by (rule save_ok [OF assms(1,2)])
  from assms(2) have "\<not> list_ex (\<lambda>l. layout_id l = nid) (layouts d)"
    by (auto simp: list_ex_iff)
  then have f: "layout_findUnique nid ?d1 = Some ?l"
    by (simp add: layout_findUnique_def find_snoc_fresh)
  have p: "''1'' \<in> tv_id ` set (tvs ?d1)" "''2'' \<in> tv_id ` set (tvs ?d1)" "''3'' \<in> tv_id ` set (tvs ?d1)"
    using assms(3,4,5) by simp_all
  have r: "restore t2 nid ?d1 = (Inr (sort_key position (map ?g (tvs ?d1))), ?d2)"
    by (rule restore_present_ok [OF f p])
  have ids: "map tv_id (map ?g (tvs d)) = map tv_id (tvs d)"
    by (induction "tvs d") auto
  then have "tv_id ` set (map ?g (tvs d)) = tv_id ` set (tvs d)"
    by (metis set_map)
  with assms(3,4,5)
  have q: "''1'' \<in> tv_id ` set (tvs ?d2)" "''2'' \<in> tv_id ` set (tvs ?d2)" "''3'' \<in> tv_id ` set (tvs ?d2)"
    by simp_all
  have v: "list_all (\<lambda>r. (tv_id r = ''1'' \<longrightarrow> imageUrl r = in_tv1Url inp)
                          \<and> (tv_id r = ''2'' \<longrightarrow> imageUrl r = in_tv2Url inp)
                          \<and> (tv_id r = ''3'' \<longrightarrow> imageUrl r = in_tv3Url inp)) (tvs ?d2)"
    by (auto simp: list_all_iff)
  have "set (sort_key position (map ?g (tvs ?d1))) = set (tvs ?d2)"
    by simp
  with s r q v show ?thesis
    by (intro exI [of _ ?l] exI [of _ ?d1] exI [of _ "sort_key position (map ?g (tvs ?d1))"] exI [of _ ?d2])
      simp
qed

theorem save_restore_roundtrip_witness:
  "in_name \<lparr>in_name = ''Evening'', in_tv1Url = Some ''/a.png'', in_tv2Url = Some ''/b.png'', in_tv3Url = None\<rparr> \<noteq> []
   \<and> ''V1StGXR8'' \<notin> layout_id ` set (layouts example_store)
   \<and> ''1'' \<in> tv_id ` set (tvs example_store)
   \<and> ''2'' \<in> tv_id ` set (tvs example_store)
   \<and> ''3'' \<in> tv_id ` set (tvs example_store)
   \<and> (\<exists>l d1 rows d2.
         save ''V1StGXR8'' 8
           \<lparr>in_name = ''Evening'', in_tv1Url = Some ''/a.png'', in_tv2Url = Some ''/b.png'', in_tv3Url = None\<rparr>
           example_store = (Inr l, d1)
         \<and> restore 9 (layout_id l) d1 = (Inr rows, d2)
         \<and> map (\<lambda>r. (tv_id r, imageUrl r)) (tvs d2)
             = [(''1'', Some ''/a.png''), (''2'', Some ''/b.png''), (''3'', None)]
         \<and> list_all (\<lambda>r. (tv_id r = ''1'' \<longrightarrow> imageUrl r = Some ''/a.png'')
                          \<and> (tv_id r = ''2'' \<longrightarrow> imageUrl r = Some ''/b.png'')
                          \<and> (tv_id r = ''3'' \<longrightarrow> imageUrl r = None)) (tvs d2))"
proof -
  let ?inp = "\<lparr>in_name = ''Evening'', in_tv1Url = Some ''/a.png'', in_tv2Url = Some ''/b.png'', in_tv3Url = None\<rparr>"
  have h1: "in_name ?inp \<noteq> []" by simp
  have h2: "''V1StGXR8'' \<notin> layout_id ` set (layouts example_store)"
    by (simp add: example_store_def)
  have h3: "''1'' \<in> tv_id ` set (tvs example_store)" "''2'' \<in> tv_id ` set (tvs example_store)"
    "''3'' \<in> tv_id ` set (tvs example_store)"
    by (simp_all add: example_store_def)
  from save_restore_roundtrip [OF h1 h2 h3, of 8 9]
  obtain l d1 rows d2 where
    s: "save ''V1StGXR8'' 8 ?inp example_store = (Inr l, d1)"
    and r: "restore 9 (layout_id l) d1 = (Inr rows, d2)"
    and v: "list_all (\<lambda>r. (tv_id r = ''1'' \<longrightarrow> imageUrl r = in_tv1Url ?inp)
                          \<and> (tv_id r = ''2'' \<longrightarrow> imageUrl r = in_tv2Url ?inp)
                          \<and> (tv_id r = ''3'' \<longrightarrow> imageUrl r = in_tv3Url ?inp)) (tvs d2)"
    by blast
  from s have l: "layout_id l = ''V1StGXR8''" and d1: "d1 = snd (save ''V1StGXR8'' 8 ?inp example_store)"
    by (auto simp: save_def save_schema_def layout_create_def example_store_def Let_def)
  from r have "d2 = snd (restore 9 ''V1StGXR8'' (snd (save ''V1StGXR8'' 8 ?inp example_store)))"
    unfolding l d1 by simp
  then have m: "map (\<lambda>r. (tv_id r, imageUrl r)) (tvs d2)
             = [(''1'', Some ''/a.png''), (''2'', Some ''/b.png''), (''3'', None)]"
    by (simp add: save_def save_schema_def layout_create_def example_store_def Let_def
          restore_def layout_findUnique_def transaction_def tv_update_def)
  from v have v': "list_all (\<lambda>r. (tv_id r = ''1'' \<longrightarrow> imageUrl r = Some ''/a.png'')
                          \<and> (tv_id r = ''2'' \<longrightarrow> imageUrl r = Some ''/b.png'')
                          \<and> (tv_id r = ''3'' \<longrightarrow> imageUrl r = None)) (tvs d2)"
    by simp
  have "\<exists>l d1 rows d2.
         save ''V1StGXR8'' 8 ?inp example_store = (Inr l, d1)
         \<and> restore 9 (layout_id l) d1 = (Inr rows, d2)
         \<and> map (\<lambda>r. (tv_id r, imageUrl r)) (tvs d2)
             = [(''1'', Some ''/a.png''), (''2'', Some ''/b.png''), (''3'', None)]
         \<and> list_all (\<lambda>r. (tv_id r = ''1'' \<longrightarrow> imageUrl r = Some ''/a.png'')
                          \<and> (tv_id r = ''2'' \<longrightarrow> imageUrl r = Some ''/b.png'')
                          \<and> (tv_id r = ''3'' \<longrightarrow> imageUrl r = None)) (tvs d2)"
    by (rule exI [of _ l], rule exI [of _ d1], rule exI [of _ rows], rule exI [of _ d2])
      (intro conjI s r m v')
  with h1 h2 h3 show ?thesis by (intro conjI)
qed

section \<open>The imageUrl rule\<close>

lemma URL_ok_empty: "\<not> URL_ok rest_ok []"
  by (simp add: URL_ok_def url_scheme_def url_input_def)

lemma URL_ok_relative_path: "\<not> URL_ok rest_ok ''/relative/path.png''"
  by (simp add: URL_ok_def url_scheme_def url_input_def c0_control_or_space_def ascii_tab_or_newline_def
        ascii_upper_def ascii_lower_def)

lemma URL_ok_not_a_url: "\<not> URL_ok rest_ok ''not a url''"
  by (simp add: URL_ok_def url_scheme_def url_input_def c0_control_or_space_def ascii_tab_or_newline_def
        ascii_upper_def ascii_lower_def scheme_char_def ascii_digit_def)

lemma URL_ok_https_example:
  "URL_ok rest_ok ''https://example.com/x.png'' = rest_ok ''https'' ''//example.com/x.png''"
  by (simp add: URL_ok_def url_scheme_def url_input_def c0_control_or_space_def ascii_tab_or_newline_def
        ascii_upper_def ascii_lower_def scheme_char_def ascii_digit_def toLowerCase_def)

lemma updateImage_schema_iff:
  "updateImage_schema rest_ok v \<longleftrightarrow>
     (v = None \<or> v = Some [] \<or> (\<exists>s. v = Some s \<and> (URL_ok rest_ok s \<or> startsWith s ''/'')))"
  by (cases v) (auto simp: updateImage_schema_def updateImage_refine_def)

lemma updateImage_invalid:
  "\<not> updateImage_schema rest_ok v \<Longrightarrow> updateImage rest_ok now i v d = (Inl ValidationError, d)"
  by (simp add: updateImage_def)

lemma updateImage_valid_present:
  assumes "updateImage_schema rest_ok v" and "i \<in> tv_id ` set (tvs d)"
  shows "\<exists>r. updateImage rest_ok now i v d =
           (Inr r, d\<lparr>tvs := map (\<lambda>r. if tv_id r = i then r\<lparr>imageUrl := v, updatedAt := now\<rparr> else r) (tvs d)\<rparr>)
         \<and> imageUrl r = v \<and> tv_id r = i"
proof -
  from assms(2) obtain r0 where r0: "find (\<lambda>r. tv_id r = i) (tvs d) = Some r0"
    by (cases "find (\<lambda>r. tv_id r = i) (tvs d)") (auto simp: find_None_iff)
  then have "tv_id r0 = i"
    by (auto simp: find_Some_iff)
  with r0 assms(1) show ?thesis
    by (simp add: updateImage_def tv_update_def)
qed

lemma updateImage_valid_absent:
  assumes "updateImage_schema rest_ok v" and "i \<notin> tv_id ` set (tvs d)"
  shows "updateImage rest_ok now i v d = (Inl NotFound, d)"
  using assms by (simp add: updateImage_def tv_update_absent)

text \<open>
  Claim C2, as amended. The database \<open>updateImage\<close> fails with \<open>ValidationError\<close> exactly when
  the value is a non-empty string that is neither a URL the parser accepts nor begins with
  "/": \<open>null\<close>, the empty string, a valid absolute URL and a string beginning with "/" pass.
  A value that passes is stored on the screen when the id is in the table, and the call
  fails with \<open>NotFound\<close> when it is not. The in-memory \<open>updateImage\<close> passes \<open>null\<close> and valid
  absolute URLs only. "not a url" fails, "/relative/path.png" and \<open>null\<close> pass, and
  "https://example.com/x.png" passes when the parser accepts what follows its scheme.
\<close>

theorem updateImage_validation:
  "(fst (updateImage rest_ok now i v d) = Inl ValidationError \<longleftrightarrow>
      \<not> (v = None \<or> v = Some [] \<or> (\<exists>s. v = Some s \<and> (URL_ok rest_ok s \<or> startsWith s ''/''))))
   \<and> (i \<in> tv_id ` set (tvs d) \<longrightarrow>
        (\<not> isl (fst (updateImage rest_ok now i v d)) \<longleftrightarrow>
           (v = None \<or> v = Some [] \<or> (\<exists>s. v = Some s \<and> (URL_ok rest_ok s \<or> startsWith s ''/'')))))
   \<and> (\<not> isl (fst (updateImage rest_ok now i v d)) \<longrightarrow>
        snd (updateImage rest_ok now i v d) =
          d\<lparr>tvs := map (\<lambda>r. if tv_id r = i then r\<lparr>imageUrl := v, updatedAt := now\<rparr> else r) (tvs d)\<rparr>)
   \<and> (i \<notin> tv_id ` set (tvs d) \<longrightarrow>
        fst (updateImage rest_ok now i v d) \<in> {Inl ValidationError, Inl NotFound}
        \<and> snd (updateImage rest_ok now i v d) = d)
   \<and> (fst (updateImage_mem rest_ok now i v ss) = Inl ValidationError \<longleftrightarrow>
        \<not> (v = None \<or> (\<exists>s. v = Some s \<and> URL_ok rest_ok s)))
   \<and> fst (updateImage rest_ok now i (Some ''not a url'') d) = Inl ValidationError
   \<and> fst (updateImage rest_ok now i (Some ''/relative/path.png'') d) \<noteq> Inl ValidationError
   \<and> fst (updateImage rest_ok now i None d) \<noteq> Inl ValidationError
   \<and> (rest_ok ''https'' ''//example.com/x.png'' \<longrightarrow>
        fst (updateImage rest_ok now i (Some ''https://example.com/x.png'') d) \<noteq> Inl ValidationError)"
proof -
  have v: "fst (updateImage rest_ok now i v d) = Inl ValidationError \<longleftrightarrow> \<not> updateImage_schema rest_ok v" for v
  proof (cases "updateImage_schema rest_ok v")
    case False
    then show ?thesis by (simp add: updateImage_invalid)
  next
    case True
    show ?thesis
    proof (cases "i \<in> tv_id ` set (tvs d)")
      case pres: True
      from updateImage_valid_present [OF True pres, of now] True show ?thesis by auto
    next
      case False
      with True show ?thesis by (simp add: updateImage_valid_absent)
    qed
  qed
  have a: "fst (updateImage rest_ok now i v d) = Inl ValidationError \<longleftrightarrow>
      \<not> (v = None \<or> v = Some [] \<or> (\<exists>s. v = Some s \<and> (URL_ok rest_ok s \<or> startsWith s ''/'')))"
    unfolding v updateImage_schema_iff ..
  have b: "i \<in> tv_id ` set (tvs d) \<longrightarrow>
        (\<not> isl (fst (updateImage rest_ok now i v d)) \<longleftrightarrow>
           (v = None \<or> v = Some [] \<or> (\<exists>s. v = Some s \<and> (URL_ok rest_ok s \<or> startsWith s ''/''))))"
  proof
    assume pres: "i \<in> tv_id ` set (tvs d)"
    show "\<not> isl (fst (updateImage rest_ok now i v d)) \<longleftrightarrow>
           (v = None \<or> v = Some [] \<or> (\<exists>s. v = Some s \<and> (URL_ok rest_ok s \<or> startsWith s ''/'')))"
    proof (cases "updateImage_schema rest_ok v")
      case True
      from updateImage_valid_present [OF True pres, of now] True show ?thesis
        unfolding updateImage_schema_iff [symmetric] by auto
    next
      case False
      then show ?thesis
        unfolding updateImage_schema_iff [symmetric] by (simp add: updateImage_invalid)
    qed
  qed
  have c: "\<not> isl (fst (updateImage rest_ok now i v d)) \<longrightarrow>
        snd (updateImage rest_ok now i v d) =
          d\<lparr>tvs := map (\<lambda>r. if tv_id r = i then r\<lparr>imageUrl := v, updatedAt := now\<rparr> else r) (tvs d)\<rparr>"
    by (auto simp: updateImage_def tv_update_def split: option.splits)
  have e: "i \<notin> tv_id ` set (tvs d) \<longrightarrow>
        fst (updateImage rest_ok now i v d) \<in> {Inl ValidationError, Inl NotFound}
        \<and> snd (updateImage rest_ok now i v d) = d"
    by (cases "updateImage_schema rest_ok v") (simp_all add: updateImage_invalid updateImage_valid_absent)
  have f: "fst (updateImage_mem rest_ok now i v ss) = Inl ValidationError \<longleftrightarrow>
        \<not> (v = None \<or> (\<exists>s. v = Some s \<and> URL_ok rest_ok s))"
    by (cases v) (auto simp: updateImage_mem_def updateImage_mem_schema_def Let_def)
  have g: "fst (updateImage rest_ok now i (Some ''not a url'') d) = Inl ValidationError"
    unfolding v by (simp add: updateImage_schema_def updateImage_refine_def URL_ok_not_a_url startsWith_def)
  have h: "fst (updateImage rest_ok now i (Some ''/relative/path.png'') d) \<noteq> Inl ValidationError"
    unfolding v by (simp add: updateImage_schema_def updateImage_refine_def startsWith_def)
  have k: "fst (updateImage rest_ok now i None d) \<noteq> Inl ValidationError"
    unfolding v by (simp add: updateImage_schema_def)
  have l: "rest_ok ''https'' ''//example.com/x.png'' \<longrightarrow>
        fst (updateImage rest_ok now i (Some ''https://example.com/x.png'') d) \<noteq> Inl ValidationError"
    unfolding v by (simp add: updateImage_schema_def updateImage_refine_def URL_ok_https_example)
  show ?thesis
    using a b c e f g h k l by (intro conjI)
qed

theorem updateImage_validation_witness:
  "''1'' \<in> tv_id ` set (tvs example_store)
   \<and> \<not> isl (fst (updateImage (\<lambda>_ _. True) 7 ''1'' (Some ''https://example.com/x.png'') example_store))
   \<and> map imageUrl (tvs (snd (updateImage (\<lambda>_ _. True) 7 ''1'' (Some ''https://example.com/x.png'') example_store)))
       = [Some ''https://example.com/x.png'', None, Some ''/x.png'']
   \<and> ''9'' \<notin> tv_id ` set (tvs example_store)
   \<and> snd (updateImage (\<lambda>_ _. True) 7 ''9'' None example_store) = example_store
   \<and> fst (updateImage (\<lambda>_ _. True) 7 ''1'' (Some ''https://example.com/x.png'') example_store) \<noteq> Inl ValidationError"
proof -
  note t1 = updateImage_validation [where rest_ok = "\<lambda>_ _. True" and now = 7 and i = "''1''"
              and v = "Some ''https://example.com/x.png''" and d = example_store]
  note t2 = updateImage_validation [where rest_ok = "\<lambda>_ _. True" and now = 7 and i = "''9''"
              and v = None and d = example_store]
  have h1: "''1'' \<in> tv_id ` set (tvs example_store)"
    by (simp add: example_store_def)
  have h2: "''9'' \<notin> tv_id ` set (tvs example_store)"
    by (simp add: example_store_def)
  have u: "URL_ok (\<lambda>_ _. True) ''https://example.com/x.png''"
    by (simp add: URL_ok_https_example)
  from t1 h1 u have a: "\<not> isl (fst (updateImage (\<lambda>_ _. True) 7 ''1'' (Some ''https://example.com/x.png'') example_store))"
    by blast
  with t1 have "snd (updateImage (\<lambda>_ _. True) 7 ''1'' (Some ''https://example.com/x.png'') example_store) =
          example_store\<lparr>tvs := map (\<lambda>r. if tv_id r = ''1''
                                         then r\<lparr>imageUrl := Some ''https://example.com/x.png'', updatedAt := 7\<rparr>
                                         else r) (tvs example_store)\<rparr>"
    by blast
  then have b: "map imageUrl (tvs (snd (updateImage (\<lambda>_ _. True) 7 ''1'' (Some ''https://example.com/x.png'') example_store)))
       = [Some ''https://example.com/x.png'', None, Some ''/x.png'']"
    by (simp add: example_store_def)
  from t2 h2 have c: "snd (updateImage (\<lambda>_ _. True) 7 ''9'' None example_store) = example_store"
    by blast
  from t1 have e: "fst (updateImage (\<lambda>_ _. True) 7 ''1'' (Some ''https://example.com/x.png'') example_store) \<noteq> Inl ValidationError"
    by blast
  show ?thesis using h1 a b h2 c e by (intro conjI)
qed

text \<open>The claim as stated fails on the database variant at the empty string: the call
  succeeds, and the empty string is not \<open>null\<close>, not a URL and does not begin with "/".\<close>

theorem updateImage_empty_string_counterexample:
  "\<not> (\<not> isl (fst (updateImage (\<lambda>_ _. True) 7 ''1'' (Some '''') example_store))
        \<longleftrightarrow> spec_imageUrl_valid (\<lambda>_ _. True) (Some ''''))"
  by (simp add: updateImage_def updateImage_schema_def updateImage_refine_def tv_update_def
        example_store_def spec_imageUrl_valid_def URL_ok_empty startsWith_def)

text \<open>
  Claim C10. In the database \<open>updateImage\<close> the empty string passes the validation, whatever
  the URL parser accepts, and is stored as the screen's \<open>imageUrl\<close> as it is; yet it is not
  \<open>null\<close>, not a valid absolute URL and does not begin with "/".
\<close>

theorem updateImage_accepts_empty_string:
  "updateImage_schema rest_ok (Some '''')
   \<and> \<not> spec_imageUrl_valid rest_ok (Some '''')
   \<and> (i \<in> tv_id ` set (tvs d) \<longrightarrow>
        (\<exists>r. updateImage rest_ok now i (Some '''') d =
                (Inr r, d\<lparr>tvs := map (\<lambda>r. if tv_id r = i then r\<lparr>imageUrl := Some '''', updatedAt := now\<rparr>
                                          else r) (tvs d)\<rparr>)
              \<and> tv_id r = i \<and> imageUrl r = Some ''''))"
proof -
  have a: "updateImage_schema rest_ok (Some '''')"
    by (simp add: updateImage_schema_def updateImage_refine_def)
  have b: "\<not> spec_imageUrl_valid rest_ok (Some '''')"
    by (simp add: spec_imageUrl_valid_def URL_ok_empty startsWith_def)
  have c: "i \<in> tv_id ` set (tvs d) \<longrightarrow>
        (\<exists>r. updateImage rest_ok now i (Some '''') d =
                (Inr r, d\<lparr>tvs := map (\<lambda>r. if tv_id r = i then r\<lparr>imageUrl := Some '''', updatedAt := now\<rparr>
                                          else r) (tvs d)\<rparr>)
              \<and> tv_id r = i \<and> imageUrl r = Some '''')"
    using updateImage_valid_present [OF a, of i d now] by blast
  show ?thesis using a b c by (intro conjI)
qed

theorem updateImage_accepts_empty_string_witness:
  "''2'' \<in> tv_id ` set (tvs example_store)
   \<and> updateImage (\<lambda>_ _. True) 7 ''2'' (Some '''') example_store =
       (Inr \<lparr>tv_id = ''2'', position = 1, imageUrl = Some '''', updatedAt = 7, createdAt = 1\<rparr>,
        \<lparr>tvs = [\<lparr>tv_id = ''1'', position = 2, imageUrl = Some ''/image1.png'', updatedAt = 5, createdAt = 1\<rparr>,
                \<lparr>tv_id = ''2'', position = 1, imageUrl = Some '''', updatedAt = 7, createdAt = 1\<rparr>,
                \<lparr>tv_id = ''3'', position = 3, imageUrl = Some ''/x.png'', updatedAt = 20, createdAt = 1\<rparr>],
         layouts = []\<rparr>)"
proof -
  have h: "''2'' \<in> tv_id ` set (tvs example_store)"
    by (simp add: example_store_def)
  from updateImage_accepts_empty_string [of "\<lambda>_ _. True" "''2''" example_store 7] h
  obtain r where r: "updateImage (\<lambda>_ _. True) 7 ''2'' (Some '''') example_store =
                (Inr r, example_store\<lparr>tvs := map (\<lambda>r. if tv_id r = ''2'' then r\<lparr>imageUrl := Some '''', updatedAt := 7\<rparr>
                                          else r) (tvs example_store)\<rparr>)"
    by blast
  have "updateImage (\<lambda>_ _. True) 7 ''2'' (Some '''') example_store =
       (Inr \<lparr>tv_id = ''2'', position = 1, imageUrl = Some '''', updatedAt = 7, createdAt = 1\<rparr>,
        \<lparr>tvs = [\<lparr>tv_id = ''1'', position = 2, imageUrl = Some ''/image1.png'', updatedAt = 5, createdAt = 1\<rparr>,
                \<lparr>tv_id = ''2'', position = 1, imageUrl = Some '''', updatedAt = 7, createdAt = 1\<rparr>,
                \<lparr>tv_id = ''3'', position = 3, imageUrl = Some ''/x.png'', updatedAt = 20, createdAt = 1\<rparr>],
         layouts = []\<rparr>)"
    using r by (simp add: updateImage_def updateImage_schema_def updateImage_refine_def tv_update_def
          example_store_def)
  with h show ?thesis by (intro conjI)
qed

section \<open>Validation in the layout catalog\<close>

text \<open>
  Claim C6, as amended. \<open>save\<close> fails with \<open>ValidationError\<close> exactly when the name is empty;
  it applies no rule to the three fields: with a non-empty name and a fresh identifier it
  stores the three values as given, whatever strings they are; and it never changes the
  screen table.
\<close>

theorem save_validation:
  "(fst (save nid now inp d) = Inl ValidationError \<longleftrightarrow> in_name inp = [])
   \<and> tvs (snd (save nid now inp d)) = tvs d
   \<and> (in_name inp \<noteq> [] \<and> nid \<notin> layout_id ` set (layouts d) \<longrightarrow>
        save nid now inp d =
          (Inr \<lparr>layout_id = nid, name = in_name inp, tv1Url = in_tv1Url inp, tv2Url = in_tv2Url inp,
                 tv3Url = in_tv3Url inp, layout_updatedAt = now, layout_createdAt = now\<rparr>,
           d\<lparr>layouts := layouts d @
                [\<lparr>layout_id = nid, name = in_name inp, tv1Url = in_tv1Url inp, tv2Url = in_tv2Url inp,
                  tv3Url = in_tv3Url inp, layout_updatedAt = now, layout_createdAt = now\<rparr>]\<rparr>))"
proof -
  have a: "fst (save nid now inp d) = Inl ValidationError \<longleftrightarrow> in_name inp = []"
    by (cases "in_name inp") (auto simp: save_def save_schema_def layout_create_def Let_def)
  show ?thesis
    using a save_keeps_screens save_ok by blast
qed

theorem save_validation_witness:
  "in_name \<lparr>in_name = ''Evening'', in_tv1Url = Some ''not a url'', in_tv2Url = Some ''/b.png'', in_tv3Url = None\<rparr> \<noteq> []
   \<and> ''V1StGXR8'' \<notin> layout_id ` set (layouts example_store)
   \<and> save ''V1StGXR8'' 8
        \<lparr>in_name = ''Evening'', in_tv1Url = Some ''not a url'', in_tv2Url = Some ''/b.png'', in_tv3Url = None\<rparr>
        example_store =
       (Inr \<lparr>layout_id = ''V1StGXR8'', name = ''Evening'', tv1Url = Some ''not a url'', tv2Url = Some ''/b.png'',
              tv3Url = None, layout_updatedAt = 8, layout_createdAt = 8\<rparr>,
        example_store\<lparr>layouts :=
          [\<lparr>layout_id = ''V1StGXR8'', name = ''Evening'', tv1Url = Some ''not a url'', tv2Url = Some ''/b.png'',
              tv3Url = None, layout_updatedAt = 8, layout_createdAt = 8\<rparr>]\<rparr>)"
proof -
  let ?inp = "\<lparr>in_name = ''Evening'', in_tv1Url = Some ''not a url'', in_tv2Url = Some ''/b.png'', in_tv3Url = None\<rparr>"
  have h1: "in_name ?inp \<noteq> []" by simp
  have h2: "''V1StGXR8'' \<notin> layout_id ` set (layouts example_store)"
    by (simp add: example_store_def)
  from save_validation [of "''V1StGXR8''" 8 ?inp example_store] h1 h2
  have "save ''V1StGXR8'' 8 ?inp example_store =
          (Inr \<lparr>layout_id = ''V1StGXR8'', name = in_name ?inp, tv1Url = in_tv1Url ?inp, tv2Url = in_tv2Url ?inp,
                 tv3Url = in_tv3Url ?inp, layout_updatedAt = 8, layout_createdAt = 8\<rparr>,
           example_store\<lparr>layouts := layouts example_store @
                [\<lparr>layout_id = ''V1StGXR8'', name = in_name ?inp, tv1Url = in_tv1Url ?inp, tv2Url = in_tv2Url ?inp,
                  tv3Url = in_tv3Url ?inp, layout_updatedAt = 8, layout_createdAt = 8\<rparr>]\<rparr>)"
    by blast
  then have "save ''V1StGXR8'' 8 ?inp example_store =
       (Inr \<lparr>layout_id = ''V1StGXR8'', name = ''Evening'', tv1Url = Some ''not a url'', tv2Url = Some ''/b.png'',
              tv3Url = None, layout_updatedAt = 8, layout_createdAt = 8\<rparr>,
        example_store\<lparr>layouts :=
          [\<lparr>layout_id = ''V1StGXR8'', name = ''Evening'', tv1Url = Some ''not a url'', tv2Url = Some ''/b.png'',
              tv3Url = None, layout_updatedAt = 8, layout_createdAt = 8\<rparr>]\<rparr>)"
    by (simp add: example_store_def)
  with h1 h2 show ?thesis by (intro conjI)
qed

text \<open>The claim as stated fails: "not a url" is not valid by the rule for \<open>Screen.imageUrl\<close>,
  and \<open>save\<close> accepts it.\<close>

theorem save_unvalidated_url_counterexample:
  "\<not> spec_imageUrl_valid (\<lambda>_ _. True) (Some ''not a url'')
   \<and> fst (save ''V1StGXR8'' 8
        \<lparr>in_name = ''Evening'', in_tv1Url = Some ''not a url'', in_tv2Url = None, in_tv3Url = None\<rparr>
        example_store)
       = Inr \<lparr>layout_id = ''V1StGXR8'', name = ''Evening'', tv1Url = Some ''not a url'', tv2Url = None,
              tv3Url = None, layout_updatedAt = 8, layout_createdAt = 8\<rparr>"
  by (simp add: spec_imageUrl_valid_def URL_ok_not_a_url startsWith_def save_def save_schema_def
        layout_create_def example_store_def Let_def)

section \<open>The trigger-reload pulse\<close>

lemma run_calls_append: "run_calls (cs @ ds) s = run_calls ds (run_calls cs s)"
  by (induction cs arbitrary: s) auto

lemma idle_or_armed_init: "idle_or_armed signals_init"
  by (simp add: idle_or_armed_def signals_init_def)

lemma fire_due_idle:
  assumes "timers s = []"
  shows "fire_due T s = s"
  using assms by (simp add: fire_due_def)

lemma fire_due_not_yet:
  assumes "timers s = [(h, d)]" and "T < d"
  shows "fire_due T s = s"
  using assms by (simp add: fire_due_def)

lemma fire_due_reached:
  assumes "timers s = [(h, d)]" and "\<not> T < d"
  shows "fire_due T s = s\<lparr>timers := [], triggerReload := False, triggerReloadTimeout := None\<rparr>"
  using assms by (simp add: fire_due_def timer_callback_def)

lemma idle_or_armed_fire_due:
  assumes "idle_or_armed s"
  shows "idle_or_armed (fire_due T s)"
proof (cases "timers s")
  case Nil
  with assms show ?thesis by (simp add: fire_due_idle)
next
  case (Cons a as)
  with assms obtain h d where t: "timers s = [(h, d)]"
    by (auto simp: idle_or_armed_def)
  show ?thesis
  proof (cases "T < d")
    case True
    with assms t show ?thesis by (simp add: fire_due_not_yet)
  next
    case False
    with t show ?thesis by (simp add: fire_due_reached idle_or_armed_def)
  qed
qed

lemma idle_or_armed_set:
  assumes "idle_or_armed s"
  shows "idle_or_armed (snd (setTriggerReload t b s))"
  using assms
  by (cases b) (auto simp: idle_or_armed_def setTriggerReload_def setTimeout_def clearTimeout_def Let_def)

lemma idle_or_armed_run:
  assumes "idle_or_armed s"
  shows "idle_or_armed (run_calls cs s)"
  using assms
proof (induction cs arbitrary: s)
  case Nil
  then show ?case by simp
next
  case (Cons c cs)
  obtain t b where c: "c = (t, b)" by (cases c)
  from Cons.prems have "idle_or_armed (snd (setTriggerReload t b (fire_due t s)))"
    by (intro idle_or_armed_set idle_or_armed_fire_due)
  from Cons.IH [OF this] c show ?case by simp
qed

lemma set_true_arms:
  assumes "idle_or_armed s"
  shows "\<exists>h. timers (snd (setTriggerReload t True s)) = [(h, t + 5000)]
            \<and> triggerReloadTimeout (snd (setTriggerReload t True s)) = Some h
            \<and> triggerReload (snd (setTriggerReload t True s))"
  using assms
  by (auto simp: idle_or_armed_def setTriggerReload_def setTimeout_def clearTimeout_def Let_def)

lemma set_false_disarms:
  assumes "idle_or_armed s"
  shows "timers (snd (setTriggerReload t False s)) = []
            \<and> triggerReloadTimeout (snd (setTriggerReload t False s)) = None
            \<and> \<not> triggerReload (snd (setTriggerReload t False s))"
  using assms
  by (auto simp: idle_or_armed_def setTriggerReload_def setTimeout_def clearTimeout_def Let_def)

lemma fire_due_armed:
  assumes "timers s = [(h, d)]" and "triggerReload s"
  shows "triggerReload (fire_due T s) \<longleftrightarrow> T < d"
proof (cases "T < d")
  case True
  with assms show ?thesis by (simp add: fire_due_not_yet)
next
  case False
  with assms show ?thesis by (simp add: fire_due_reached)
qed

text \<open>
  Claim C9. After any history of calls, a call that sets the flag at time \<open>t\<close> leaves exactly
  one pending timer, due at \<open>t + 5000\<close>, whatever timers earlier calls had set: the flag reads
  true at every time before \<open>t + 5000\<close> and false from \<open>t + 5000\<close> on. A call that clears the
  flag leaves no timer and the flag false. At no point is more than one timer pending.
\<close>

theorem trigger_reload_pulse:
  "(getTriggerReload (fire_due T (run_calls (cs @ [(t, True)]) signals_init)) \<longleftrightarrow> T < t + 5000)
   \<and> map snd (timers (run_calls (cs @ [(t, True)]) signals_init)) = [t + 5000]
   \<and> \<not> getTriggerReload (fire_due T (run_calls (cs @ [(t, False)]) signals_init))
   \<and> timers (run_calls (cs @ [(t, False)]) signals_init) = []
   \<and> length (timers (run_calls cs signals_init)) \<le> 1"
proof -
  let ?s = "fire_due t (run_calls cs signals_init)"
  have inv: "idle_or_armed (run_calls cs signals_init)"
    by (intro idle_or_armed_run idle_or_armed_init)
  then have inv': "idle_or_armed ?s"
    by (rule idle_or_armed_fire_due)
  have r: "run_calls (cs @ [(t, b)]) signals_init = snd (setTriggerReload t b ?s)" for b
    by (simp add: run_calls_append)
  from set_true_arms [OF inv', of t]
  obtain h where h: "timers (snd (setTriggerReload t True ?s)) = [(h, t + 5000)]"
    and fl: "triggerReload (snd (setTriggerReload t True ?s))"
    by blast
  have a: "getTriggerReload (fire_due T (run_calls (cs @ [(t, True)]) signals_init)) \<longleftrightarrow> T < t + 5000"
    unfolding r getTriggerReload_def by (rule fire_due_armed [OF h fl])
  have b: "map snd (timers (run_calls (cs @ [(t, True)]) signals_init)) = [t + 5000]"
    unfolding r h by simp
  from set_false_disarms [OF inv', of t]
  have e: "timers (snd (setTriggerReload t False ?s)) = []"
    and nf: "\<not> triggerReload (snd (setTriggerReload t False ?s))"
    by blast+
  have c: "\<not> getTriggerReload (fire_due T (run_calls (cs @ [(t, False)]) signals_init))"
    unfolding r getTriggerReload_def fire_due_idle [OF e] by (rule nf)
  have d: "timers (run_calls (cs @ [(t, False)]) signals_init) = []"
    unfolding r by (rule e)
  from inv have f: "length (timers (run_calls cs signals_init)) \<le> 1"
    by (auto simp: idle_or_armed_def)
  show ?thesis using a b c d f by (intro conjI)
qed

theorem trigger_reload_pulse_witness:
  "getTriggerReload (fire_due 7999 (run_calls ([(0, True)] @ [(3000, True)]) signals_init))
   \<and> \<not> getTriggerReload (fire_due 8000 (run_calls ([(0, True)] @ [(3000, True)]) signals_init))
   \<and> timers (run_calls ([(0, True)] @ [(3000, True)]) signals_init) = [(1, 8000)]"
proof -
  from trigger_reload_pulse [of 7999 "[(0, True)]" 3000]
  have a: "getTriggerReload (fire_due 7999 (run_calls ([(0, True)] @ [(3000, True)]) signals_init))"
    by simp
  from trigger_reload_pulse [of 8000 "[(0, True)]" 3000]
  have b: "\<not> getTriggerReload (fire_due 8000 (run_calls ([(0, True)] @ [(3000, True)]) signals_init))"
    by simp
  have c: "timers (run_calls ([(0, True)] @ [(3000, True)]) signals_init) = [(1, 8000)]"
    by (simp add: signals_init_def fire_due_def setTriggerReload_def setTimeout_def clearTimeout_def
          timer_callback_def Let_def)
  show ?thesis using a b c by (intro conjI)
qed

section \<open>Path traversal in the image store\<close>

lemma GET_rejects_traversal:
  assumes "str_includes filename ''..'' \<or> str_includes filename ''/'' \<or> str_includes filename [CHR 0x5C]"
  shows "GET e filename fs = Response 400 ''Invalid filename''"
  using assms by (simp add: GET_def GET_try_def)

lemma GET_encoded_traversal: "GET e ''..%2f..%2fsecret'' fs = Response 400 ''Invalid filename''"
  by (rule GET_rejects_traversal) (simp add: startsWith_def)

lemma GET_decoded_traversal: "GET e ''../../secret'' fs = Response 400 ''Invalid filename''"
  by (rule GET_rejects_traversal) (simp add: startsWith_def)

lemma delete_etc_passwd_production:
  "imagesRouter_delete \<lparr>production = True, cwd = c\<rparr> ''../../etc/passwd'' fs = (Inl Failed_to_delete_image, fs)"
proof -
  have j: "path_join ''/data/images'' ''../../etc/passwd'' = ''/etc/passwd''"
    by code_simp
  have r: "path_resolve c ''/etc/passwd'' = ''/etc/passwd''" "path_resolve c ''/data/images'' = ''/data/images''"
    by (simp_all add: path_resolve_def normalizeString_def)
  have n: "\<not> startsWith ''/etc/passwd'' ''/data/images''"
    by code_simp
  show ?thesis
    by (simp add: imagesRouter_delete_def delete_try_def getDataDirectory_def j r n)
qed

lemma delete_etc_passwd_development:
  "imagesRouter_delete \<lparr>production = False, cwd = ''/app''\<rparr> ''../../etc/passwd'' fs = (Inl Failed_to_delete_image, fs)"
proof -
  have j: "path_join ''./data/images'' ''../../etc/passwd'' = ''etc/passwd''"
    by code_simp
  have r: "path_resolve ''/app'' ''etc/passwd'' = ''/app/etc/passwd''"
    "path_resolve ''/app'' ''./data/images'' = ''/app/data/images''"
    by code_simp+
  have n: "\<not> startsWith ''/app/etc/passwd'' ''/app/data/images''"
    by code_simp
  show ?thesis
    by (simp add: imagesRouter_delete_def delete_try_def getDataDirectory_def j r n)
qed

lemma delete_error_keeps_files:
  "fst (imagesRouter_delete e nm fs) = Inl err \<Longrightarrow> snd (imagesRouter_delete e nm fs) = fs"
  by (auto simp: imagesRouter_delete_def delete_try_def Let_def split: if_splits option.splits)

lemma delete_unlinks_prefixed_path:
  assumes "fst (imagesRouter_delete e nm fs) = Inr u"
  shows "snd (imagesRouter_delete e nm fs) =
           fs\<lparr>files := files fs - {path_resolve (cwd e) (path_join (getDataDirectory e) nm)}\<rparr>
         \<and> startsWith (path_resolve (cwd e) (path_join (getDataDirectory e) nm))
              (path_resolve (cwd e) (getDataDirectory e))"
  using assms
  by (auto simp: imagesRouter_delete_def delete_try_def fs_unlink_def Let_def split: if_splits option.splits)

text \<open>A name that ends in a slash names a directory: \<open>delete\<close> does not remove the regular
  file of that name, and a directory is neither removed nor served.\<close>

lemma delete_trailing_slash:
  "imagesRouter_delete \<lparr>production = True, cwd = ''/app''\<rparr> ''x.png/''
       \<lparr>files = {''/data/images/x.png''}, directories = {''/data/images''}\<rparr>
     = (Inl Failed_to_delete_image, \<lparr>files = {''/data/images/x.png''}, directories = {''/data/images''}\<rparr>)"
  by code_simp

lemma GET_directory:
  "GET \<lparr>production = True, cwd = ''/app''\<rparr> ''d.png''
       \<lparr>files = {}, directories = {''/data/images'', ''/data/images/d.png''}\<rparr>
     = Response 500 ''Internal server error''"
  by code_simp

text \<open>
  Claim C1 at the input where the code departs from it. In production the image root is
  \<open>/data/images\<close>. The name \<open>../images2/x.png\<close> contains a traversal sequence and resolves to
  \<open>/data/images2/x.png\<close>, outside the root; the text \<open>/data/images\<close> is a prefix of that
  path, so the check of \<open>delete\<close> passes and the file outside the root is removed.
\<close>

theorem imagesRouter_delete_escapes_root:
  "imagesRouter_delete \<lparr>production = True, cwd = ''/app''\<rparr> ''../images2/x.png''
       \<lparr>files = {''/data/images2/x.png'', ''/data/images/a.png''},
        directories = {''/data/images'', ''/data/images2''}\<rparr>
     = (Inr (), \<lparr>files = {''/data/images/a.png''}, directories = {''/data/images'', ''/data/images2''}\<rparr>)
   \<and> str_includes ''../images2/x.png'' ''..''
   \<and> path_resolve ''/app'' (path_join (getDataDirectory \<lparr>production = True, cwd = ''/app''\<rparr>) ''../images2/x.png'')
       = ''/data/images2/x.png''
   \<and> \<not> inside_root (path_resolve ''/app'' (getDataDirectory \<lparr>production = True, cwd = ''/app''\<rparr>))
          ''/data/images2/x.png''"
  by code_simp

lemma delete_escapes_root_development:
  "imagesRouter_delete \<lparr>production = False, cwd = ''/app''\<rparr> ''../images2/x.png''
       \<lparr>files = {''/app/data/images2/x.png'', ''/app/data/images/a.png''},
        directories = {''/app/data/images'', ''/app/data/images2''}\<rparr>
     = (Inr (), \<lparr>files = {''/app/data/images/a.png''},
                 directories = {''/app/data/images'', ''/app/data/images2''}\<rparr>)"
  by code_simp

lemma delete_accepts_inner_traversal:
  "imagesRouter_delete \<lparr>production = True, cwd = ''/app''\<rparr> ''sub/../a.png''
       \<lparr>files = {''/data/images/a.png''}, directories = {''/data/images''}\<rparr>
     = (Inr (), \<lparr>files = {}, directories = {''/data/images''}\<rparr>)"
  by code_simp

subsection \<open>The serving route stays inside the image root\<close>

lemma str_includes_char: "str_includes s [c] \<longleftrightarrow> c \<in> set s"
  by (induction s) (auto simp: startsWith_def)

lemma split_sep_nonempty: "split_sep s \<noteq> []"
  by (induction s) (auto split: list.splits)

lemma split_sep_plain: "CHR ''/'' \<notin> set f \<Longrightarrow> split_sep f = [f]"
  by (induction f) auto

lemma split_sep_slash: "split_sep (a @ CHR ''/'' # b) = split_sep a @ split_sep b"
proof (induction a)
  case Nil
  then show ?case by simp
next
  case (Cons c a)
  then show ?case
    using split_sep_nonempty [of a] by (cases "split_sep a") auto
qed

lemma normalize_segments_append:
  "normalize_segments al kept (xs @ ys) =
     normalize_segments al (rev (normalize_segments al kept xs)) ys"
  by (induction xs arbitrary: kept) (auto split: list.splits)

lemma join_sep_snoc: "xs \<noteq> [] \<Longrightarrow> join_sep (xs @ [s]) = join_sep xs @ ''/'' @ s"
  by (induction xs rule: join_sep.induct) auto

lemma extname_empty: "path_extname [] = []"
  by (simp add: path_extname_def)

lemma extname_dot: "path_extname ''.'' = []"
  by (simp add: path_extname_def)

lemma image_file_name:
  assumes "isImageFile_route f"
  shows "f \<noteq> [] \<and> f \<noteq> ''.''"
proof -
  from assms have "toLowerCase (path_extname f) \<noteq> []"
    by (auto simp: isImageFile_route_def IMAGE_MIME_TYPES_def)
  then have "path_extname f \<noteq> []"
    by (auto simp: toLowerCase_def)
  then show ?thesis
    using extname_empty extname_dot by auto
qed


lemma split_data_images:
  "split_sep ''/data/images'' = [[], ''data'', ''images'']"
  "split_sep ''./data/images'' = [''.'', ''data'', ''images'']"
  "split_sep ''data/images'' = [''data'', ''images'']"
  by code_simp+

lemma path_join_production:
  assumes "CHR ''/'' \<notin> set f" and "f \<noteq> []" "f \<noteq> ''.''" "f \<noteq> ''..''"
  shows "path_join ''/data/images'' f = ''/data/images/'' @ f"
proof -
  have sp: "split_sep (''/data/images'' @ ''/'' @ f) = [[], ''data'', ''images'', f]"
    using split_sep_slash [of "''/data/images''" f] assms(1)
    by (simp add: split_data_images split_sep_plain)
  from assms(1,2) have l: "last f \<noteq> CHR ''/''"
    using last_in_set by metis
  have n: "normalizeString (''/data/images'' @ ''/'' @ f) False = ''data/images/'' @ f"
    unfolding normalizeString_def sp using assms(2,3,4) by simp
  have "path_normalize (''/data/images'' @ ''/'' @ f) = ''/data/images/'' @ f"
    unfolding path_normalize_def using assms(2) l n by (simp add: Let_def)
  then show ?thesis
    using assms(2) by (simp add: path_join_def Let_def)
qed

lemma path_join_development:
  assumes "CHR ''/'' \<notin> set f" and "f \<noteq> []" "f \<noteq> ''.''" "f \<noteq> ''..''"
  shows "path_join ''./data/images'' f = ''data/images/'' @ f"
proof -
  have sp: "split_sep (''./data/images'' @ ''/'' @ f) = [''.'', ''data'', ''images'', f]"
    using split_sep_slash [of "''./data/images''" f] assms(1)
    by (simp add: split_data_images split_sep_plain)
  from assms(1,2) have l: "last f \<noteq> CHR ''/''"
    using last_in_set by metis
  have n: "normalizeString (''./data/images'' @ ''/'' @ f) True = ''data/images/'' @ f"
    unfolding normalizeString_def sp using assms(2,3,4) by simp
  have "path_normalize (''./data/images'' @ ''/'' @ f) = ''data/images/'' @ f"
    unfolding path_normalize_def using assms(2) l n by (simp add: Let_def)
  then show ?thesis
    using assms(2) by (simp add: path_join_def Let_def)
qed

lemma path_resolve_production:
  assumes "CHR ''/'' \<notin> set f" and "f \<noteq> []" "f \<noteq> ''.''" "f \<noteq> ''..''"
  shows "path_resolve c (''/data/images/'' @ f) = ''/data/images/'' @ f"
    and "path_resolve c ''/data/images'' = ''/data/images''"
proof -
  have "split_sep ((''/data/images'' @ CHR ''/'' # f) @ CHR ''/'' # []) = [[], ''data'', ''images'', f, []]"
    unfolding split_sep_slash using assms(1) by (simp add: split_data_images split_sep_plain)
  then have sp: "split_sep ((''/data/images/'' @ f) @ ''/'') = [[], ''data'', ''images'', f, []]"
    by simp
  have n: "normalizeString ((''/data/images/'' @ f) @ ''/'') False = ''data/images/'' @ f"
    unfolding normalizeString_def sp using assms(2,3,4) by simp
  show "path_resolve c (''/data/images/'' @ f) = ''/data/images/'' @ f"
    unfolding path_resolve_def using n by (simp add: Let_def)
  show "path_resolve c ''/data/images'' = ''/data/images''"
    by (simp add: path_resolve_def normalizeString_def)
qed

lemma path_resolve_development:
  assumes "CHR ''/'' \<notin> set f" and "f \<noteq> []" "f \<noteq> ''.''" "f \<noteq> ''..''"
    and "c \<noteq> []" "hd c = CHR ''/''"
  shows "path_resolve c (''data/images/'' @ f) = path_resolve c ''./data/images'' @ ''/'' @ f"
proof -
  let ?K = "normalize_segments False [] (split_sep c)"
  have "split_sep ((c @ CHR ''/'' # ''data/images'' @ CHR ''/'' # f) @ CHR ''/'' # [])
          = split_sep c @ [''data'', ''images'', f, []]"
    using assms(1) split_sep_slash [of "''data/images''" f]
    by (simp add: split_sep_slash split_data_images split_sep_plain)
  then have sp1: "split_sep (c @ ''/'' @ (''data/images/'' @ f) @ ''/'') = split_sep c @ [''data'', ''images'', f, []]"
    by simp
  have "split_sep ((c @ CHR ''/'' # ''./data/images'') @ CHR ''/'' # [])
          = split_sep c @ [''.'', ''data'', ''images'', []]"
    by (simp add: split_sep_slash split_data_images)
  then have sp2: "split_sep (c @ ''/'' @ ''./data/images'' @ ''/'') = split_sep c @ [''.'', ''data'', ''images'', []]"
    by simp
  have n1: "normalize_segments False [] (split_sep c @ [''data'', ''images'', f, []]) = (?K @ [''data'', ''images'']) @ [f]"
    unfolding normalize_segments_append [of False "[]" "split_sep c"] using assms(2,3,4) by simp
  have n2: "normalize_segments False [] (split_sep c @ [''.'', ''data'', ''images'', []]) = ?K @ [''data'', ''images'']"
    unfolding normalize_segments_append [of False "[]" "split_sep c"] by simp
  have q1: "normalizeString (c @ ''/'' @ (''data/images/'' @ f) @ ''/'') False
              = join_sep (?K @ [''data'', ''images'']) @ ''/'' @ f"
    unfolding normalizeString_def sp1 n1 by (rule join_sep_snoc) simp
  have q2: "normalizeString (c @ ''/'' @ ''./data/images'' @ ''/'') False = join_sep (?K @ [''data'', ''images''])"
    unfolding normalizeString_def sp2 n2 ..
  have r1: "path_resolve c (''data/images/'' @ f) = ''/'' @ join_sep (?K @ [''data'', ''images'']) @ ''/'' @ f"
    unfolding path_resolve_def using assms(5,6) q1 by (simp add: Let_def)
  have r2: "path_resolve c ''./data/images'' = ''/'' @ join_sep (?K @ [''data'', ''images''])"
    unfolding path_resolve_def using assms(5,6) q2 by (simp add: Let_def)
  show ?thesis
    unfolding r1 r2 by simp
qed


lemma dotdot_name: "\<not> str_includes f ''..'' \<Longrightarrow> f \<noteq> ''..''"
  by (auto simp: startsWith_def)

lemma GET_file_path:
  assumes "GET e filename fs = File_response p m"
  shows "p = path_resolve (cwd e) (path_join (getDataDirectory e) filename) \<and> p \<in> files fs
         \<and> \<not> str_includes filename ''..'' \<and> CHR ''/'' \<notin> set filename \<and> isImageFile_route filename"
  using assms
  by (auto simp: GET_def GET_try_def Let_def fs_readFile_def str_includes_char
        split: if_splits option.splits)

text \<open>Whatever name the serving route is called with, a file it returns is the file of
  that name directly in the image root.\<close>

lemma GET_serves_inside_root:
  assumes "GET e filename fs = File_response p m" and "cwd e \<noteq> []" "hd (cwd e) = CHR ''/''"
  shows "p = path_resolve (cwd e) (getDataDirectory e) @ ''/'' @ filename
         \<and> CHR ''/'' \<notin> set filename
         \<and> inside_root (path_resolve (cwd e) (getDataDirectory e)) p
         \<and> p \<in> files fs"
proof -
  from GET_file_path [OF assms(1)]
  have p: "p = path_resolve (cwd e) (path_join (getDataDirectory e) filename)" and "p \<in> files fs"
    and nd: "\<not> str_includes filename ''..''" and ns: "CHR ''/'' \<notin> set filename"
    and im: "isImageFile_route filename"
    by blast+
  from image_file_name [OF im] dotdot_name [OF nd]
  have pl: "filename \<noteq> []" "filename \<noteq> ''.''" "filename \<noteq> ''..''"
    by blast+
  have eq: "p = path_resolve (cwd e) (getDataDirectory e) @ ''/'' @ filename"
  proof (cases "production e")
    case True
    then show ?thesis
      unfolding p getDataDirectory_def
      by (simp only: if_True path_join_production [OF ns pl] path_resolve_production [OF ns pl])
        simp
  next
    case False
    then show ?thesis
      unfolding p getDataDirectory_def
      by (simp only: if_False path_join_development [OF ns pl]
            path_resolve_development [OF ns pl assms(2,3)])
  qed
  have "inside_root (path_resolve (cwd e) (getDataDirectory e)) p"
    unfolding eq inside_root_def startsWith_def using pl(1) by simp
  with eq ns \<open>p \<in> files fs\<close> show ?thesis by blast
qed

section \<open>The rows of the screen table\<close>

text \<open>No procedure but the seeding adds or removes a screen: the ids in the table, in
  storage order, are the same after every call. So a table is empty until \<open>getAll\<close> seeds
  it, and holds the screens "1", "2", "3" ever after.\<close>

lemma tv_update_ids:
  assumes "\<And>r. tv_id (dat r) = tv_id r" and "tv_update now i dat d = Inr (r, d')"
  shows "map tv_id (tvs d') = map tv_id (tvs d)"
proof -
  have "map tv_id (map (\<lambda>r. if tv_id r = i then (dat r)\<lparr>updatedAt := now\<rparr> else r) (tvs d)) = map tv_id (tvs d)"
    by (rule map_tv_id_update) (simp add: assms(1))
  with assms(2) show ?thesis
    by (auto simp: tv_update_def split: option.splits)
qed

lemma transaction_three_ids:
  assumes "\<And>r. tv_id (f1 r) = tv_id r" "\<And>r. tv_id (f2 r) = tv_id r" "\<And>r. tv_id (f3 r) = tv_id r"
  shows "map tv_id (tvs (snd (transaction [tv_update now ''1'' f1, tv_update now ''2'' f2, tv_update now ''3'' f3] d)))
           = map tv_id (tvs d)"
proof (cases "''1'' \<in> tv_id ` set (tvs d) \<and> ''2'' \<in> tv_id ` set (tvs d) \<and> ''3'' \<in> tv_id ` set (tvs d)")
  case True
  have m: "map tv_id (map (\<lambda>r. if tv_id r = ''1'' then (f1 r)\<lparr>updatedAt := now\<rparr>
                                    else if tv_id r = ''2'' then (f2 r)\<lparr>updatedAt := now\<rparr>
                                    else if tv_id r = ''3'' then (f3 r)\<lparr>updatedAt := now\<rparr>
                                    else r) (tvs d)) = map tv_id (tvs d)"
    using assms by (induction "tvs d") auto
  from True have p: "''1'' \<in> tv_id ` set (tvs d)" "''2'' \<in> tv_id ` set (tvs d)" "''3'' \<in> tv_id ` set (tvs d)"
    by blast+
  show ?thesis
    unfolding transaction_def run_ops_three_ok [OF p assms] using m by simp
next
  case False
  from run_ops_three_missing [OF False assms] show ?thesis
    by (simp add: transaction_def)
qed

lemma screen_ids_preserved:
  "map tv_id (tvs (snd (updateOrder now input d))) = map tv_id (tvs d)"
  "map tv_id (tvs (snd (updateImage rest_ok now i v d))) = map tv_id (tvs d)"
  "map tv_id (tvs (snd (resetImage now i d))) = map tv_id (tvs d)"
  "map tv_id (tvs (snd (resetAllImages touch now d))) = map tv_id (tvs d)"
  "map tv_id (tvs (snd (restore now i d))) = map tv_id (tvs d)"
  "map tv_id (tvs (snd (save nid now inp d))) = map tv_id (tvs d)"
proof -
  show "map tv_id (tvs (snd (updateOrder now input d))) = map tv_id (tvs d)"
    by (rule updateOrder_ids)
  show "map tv_id (tvs (snd (updateImage rest_ok now i v d))) = map tv_id (tvs d)"
    by (auto simp: updateImage_def split: sum.splits dest!: tv_update_ids [rotated])
  show "map tv_id (tvs (snd (resetImage now i d))) = map tv_id (tvs d)"
    by (auto simp: resetImage_def split: sum.splits dest!: tv_update_ids [rotated])
  have "map tv_id (tvs (tv_updateMany_empty touch now d)) = map tv_id (tvs d)"
    by (simp add: tv_updateMany_empty_def comp_def)
  moreover have "map tv_id (tvs (snd (resetAllImages touch now d)))
                   = map tv_id (tvs (snd (transaction
                        [tv_update now ''1'' (\<lambda>r. r\<lparr>imageUrl := Some ''/image1.png''\<rparr>),
                         tv_update now ''2'' (\<lambda>r. r\<lparr>imageUrl := Some ''/image2.png''\<rparr>),
                         tv_update now ''3'' (\<lambda>r. r\<lparr>imageUrl := Some ''/image3.png''\<rparr>)]
                        (tv_updateMany_empty touch now d))))"
    by (simp add: resetAllImages_def Let_def split: prod.splits sum.splits)
  ultimately show "map tv_id (tvs (snd (resetAllImages touch now d))) = map tv_id (tvs d)"
    by (simp add: transaction_three_ids)
  show "map tv_id (tvs (snd (restore now i d))) = map tv_id (tvs d)"
  proof (cases "layout_findUnique i d")
    case None
    then show ?thesis by (simp add: restore_absent)
  next
    case (Some l)
    have "map tv_id (tvs (snd (restore now i d)))
            = map tv_id (tvs (snd (transaction
                        [tv_update now ''1'' (\<lambda>r. r\<lparr>imageUrl := tv1Url l\<rparr>),
                         tv_update now ''2'' (\<lambda>r. r\<lparr>imageUrl := tv2Url l\<rparr>),
                         tv_update now ''3'' (\<lambda>r. r\<lparr>imageUrl := tv3Url l\<rparr>)] d)))"
      using Some by (simp add: restore_def split: prod.splits sum.splits)
    then show ?thesis
      by (simp add: transaction_three_ids)
  qed
  show "map tv_id (tvs (snd (save nid now inp d))) = map tv_id (tvs d)"
    by (simp add: save_keeps_screens)
qed

lemma getAll_ids:
  "map tv_id (tvs (snd (getAll now d))) = (if tvs d = [] then [''1'', ''2'', ''3''] else map tv_id (tvs d))"
  by (simp add: getAll_def initializeTVs_empty initializeTVs_nonempty)

section \<open>The in-memory variant's reads\<close>

lemma getAll_mem_sorted:
  "sorted (map sc_position (fst (getAll_mem ss))) \<and> snd (getAll_mem ss) = fst (getAll_mem ss)
   \<and> mset (fst (getAll_mem ss)) = mset ss"
  by (simp add: getAll_mem_def sort_screens_def)

text \<open>The in-memory \<open>getUpdates\<close> filters the array as it stands; its result is in position
  order when the array is, which it is after every \<open>getAll\<close> and \<open>updateOrder\<close>.\<close>

lemma getUpdates_mem_feed:
  "getUpdates_mem (Some T) ss = filter (\<lambda>s. T < sc_updatedAt s) ss"
  "getUpdates_mem None ss = getUpdates_mem (Some 0) ss"
  "sorted (map sc_position ss) \<Longrightarrow> sorted (map sc_position (getUpdates_mem input ss))"
  "T \<le> T2 \<Longrightarrow> set (getUpdates_mem (Some T2) ss) \<subseteq> set (getUpdates_mem (Some T) ss)"
  by (auto simp: getUpdates_mem_def sorted_filter)

lemma updateImage_mem_rejects_relative_path:
  "updateImage_mem rest_ok now i (Some ''/relative/path.png'') ss = (Inl ValidationError, ss)"
  by (simp add: updateImage_mem_def updateImage_mem_schema_def URL_ok_relative_path)

text \<open>Hence the shape of the table the specification assumes (empty before the seeding, or
  holding the three screens) is kept by every procedure, and \<open>getAll\<close> establishes it.\<close>

lemma registry_shape_kept:
  assumes "tvs d = [] \<or> (''1'' \<in> tv_id ` set (tvs d) \<and> ''2'' \<in> tv_id ` set (tvs d) \<and> ''3'' \<in> tv_id ` set (tvs d))"
    and "d' \<in> {snd (updateOrder now input d), snd (updateImage rest_ok now i v d), snd (resetImage now i d),
               snd (resetAllImages touch now d), snd (restore now i d), snd (save nid now inp d),
               snd (getAll now d)}"
  shows "tvs d' = [] \<or> (''1'' \<in> tv_id ` set (tvs d') \<and> ''2'' \<in> tv_id ` set (tvs d') \<and> ''3'' \<in> tv_id ` set (tvs d'))"
proof -
  from assms(2)
  have "map tv_id (tvs d') = map tv_id (tvs d) \<or> map tv_id (tvs d') = [''1'', ''2'', ''3'']"
    by (elim insertE emptyE) (simp_all add: screen_ids_preserved getAll_ids)
  then show ?thesis
  proof
    assume same: "map tv_id (tvs d') = map tv_id (tvs d)"
    then have "tv_id ` set (tvs d') = tv_id ` set (tvs d)"
      by (metis set_map)
    moreover from same have "tvs d' = [] \<longleftrightarrow> tvs d = []"
      by (metis map_is_Nil_conv)
    ultimately show ?thesis using assms(1) by simp
  next
    assume "map tv_id (tvs d') = [''1'', ''2'', ''3'']"
    then have "set (map tv_id (tvs d')) = {''1'', ''2'', ''3''}"
      by simp
    then have "tv_id ` set (tvs d') = {''1'', ''2'', ''3''}"
      by (simp only: set_map)
    then show ?thesis by simp
  qed
qed

lemma getAll_establishes_shape:
  "''1'' \<in> tv_id ` set (tvs (snd (getAll now d))) \<and> ''2'' \<in> tv_id ` set (tvs (snd (getAll now d)))
   \<and> ''3'' \<in> tv_id ` set (tvs (snd (getAll now d))) \<or> tvs d \<noteq> []"
  by (cases "tvs d = []") (simp_all add: getAll_def initializeTVs_empty)

end
